theory Spec2Isabelle
  imports Main "HOL-Library.Word"
begin

unbundle bit_operations_syntax

section \<open>Framed IPC client (ipc.service.ts)\<close>

subsection \<open>Bytes, strings and decoded messages\<close>

type_synonym byte = "8 word"

text \<open>A JavaScript string is a sequence of UTF-16 code units; \<open>length\<close> counts code units.\<close>

type_synonym jsstring = "16 word list"

definition ascii :: "string \<Rightarrow> jsstring" where
  "ascii s = map of_char s"

text \<open>
  A value returned by \<open>JSON.parse\<close>. Numbers carry an integer only: the code inspects a
  number for truthiness and nothing else.
\<close>

datatype json =
    JNull
  | JBool bool
  | JNum int
  | JStr jsstring
  | JArr "json list"
  | JObj "(jsstring \<times> json) list"

text \<open>Reading a property of a value that is neither null nor undefined; \<open>None\<close> stands for undefined.\<close>

fun get_prop :: "json \<Rightarrow> jsstring \<Rightarrow> json option" where
  "get_prop (JObj fs) name = map_of fs name"
| "get_prop v name = None"

text \<open>Truthiness of an optional property value.\<close>

fun truthy :: "json option \<Rightarrow> bool" where
  "truthy None = False"
| "truthy (Some JNull) = False"
| "truthy (Some (JBool b)) = b"
| "truthy (Some (JNum n)) = (n \<noteq> 0)"
| "truthy (Some (JStr s)) = (s \<noteq> [])"
| "truthy (Some (JArr xs)) = True"
| "truthy (Some (JObj fs)) = True"

text \<open>
  The values thrown and the rejection reasons of both components. \<open>ReopenClosedSession\<close>
  is the error "Cannot re-open closed session"; \<open>AbortError\<close> is the reason of an abort
  without a reason of its own.
\<close>

datatype error =
    DuplicateMessageId jsstring
  | TimedOut jsstring
  | ProcessError
  | SyntaxError
  | TypeError
  | RangeError
  | SessionClosedError
  | EmptyError
  | ReopenClosedSession
  | AbortError
  | UserRequestedFallbackAbortReason

datatype 'a promise = Pending | Resolved 'a | Rejected error

text \<open>Settling a promise that is already settled does nothing.\<close>

fun settle :: "'a promise \<Rightarrow> 'a promise \<Rightarrow> 'a promise" where
  "settle outcome Pending = outcome"
| "settle outcome p = p"

subsection \<open>Framing (sendIpcMessage)\<close>

text \<open>\<open>Buffer.writeUInt32LE(value, 0)\<close>: the four bytes, least significant first.\<close>

definition writeUInt32LE :: "nat \<Rightarrow> byte list" where
  "writeUInt32LE v =
     [of_nat v, of_nat (v div 256), of_nat (v div 65536), of_nat (v div 16777216)]"

text \<open>\<open>Buffer.readUInt32LE(0)\<close> on a buffer of at least four bytes.\<close>

definition readUInt32LE :: "byte list \<Rightarrow> nat" where
  "readUInt32LE buf =
     unat (buf ! 0) + 256 * unat (buf ! 1) + 65536 * unat (buf ! 2) + 16777216 * unat (buf ! 3)"

definition is_high_surrogate :: "16 word \<Rightarrow> bool" where
  "is_high_surrogate u = (0xD800 \<le> u \<and> u \<le> 0xDBFF)"

definition is_low_surrogate :: "16 word \<Rightarrow> bool" where
  "is_low_surrogate u = (0xDC00 \<le> u \<and> u \<le> 0xDFFF)"

text \<open>UTF-8 bytes of one code point.\<close>

definition utf8_code_point :: "nat \<Rightarrow> byte list" where
  "utf8_code_point c =
     (if c < 0x80 then [of_nat c]
      else if c < 0x800 then [of_nat (0xC0 + c div 64), of_nat (0x80 + c mod 64)]
      else if c < 0x10000 then
        [of_nat (0xE0 + c div 4096), of_nat (0x80 + (c div 64) mod 64), of_nat (0x80 + c mod 64)]
      else
        [of_nat (0xF0 + c div 262144), of_nat (0x80 + (c div 4096) mod 64),
         of_nat (0x80 + (c div 64) mod 64), of_nat (0x80 + c mod 64)])"

text \<open>
  The UTF-8 encoding of a string, one byte group per character: a surrogate pair is one
  character, a lone surrogate is written as U+FFFD.
\<close>

fun utf8_chars :: "jsstring \<Rightarrow> byte list list" where
  "utf8_chars [] = []"
| "utf8_chars [u] =
     [if is_high_surrogate u \<or> is_low_surrogate u then utf8_code_point 0xFFFD
      else utf8_code_point (unat u)]"
| "utf8_chars (u # v # us) =
     (if is_high_surrogate u \<and> is_low_surrogate v then
        utf8_code_point (0x10000 + (unat u - 0xD800) * 1024 + (unat v - 0xDC00)) # utf8_chars us
      else if is_high_surrogate u \<or> is_low_surrogate u then
        utf8_code_point 0xFFFD # utf8_chars (v # us)
      else utf8_code_point (unat u) # utf8_chars (v # us))"

definition utf8 :: "jsstring \<Rightarrow> byte list" where
  "utf8 s = concat (utf8_chars s)"

text \<open>
  \<open>buffer.write(string, offset)\<close> writes the UTF-8 bytes that fit in the room left and
  never a partial character: it stops at the first character that does not fit.
\<close>

fun write_fit :: "byte list list \<Rightarrow> nat \<Rightarrow> byte list" where
  "write_fit [] room = []"
| "write_fit (c # cs) room =
     (if length c \<le> room then c @ write_fit cs (room - length c) else [])"

text \<open>
  The buffer built by \<open>sendIpcMessage\<close> from the JSON text: \<open>Buffer.alloc\<close> gives
  \<open>4 + messageStr.length\<close> zero bytes, the length goes to offset 0 and the text to offset 4.
  \<open>writeUInt32LE\<close> throws on a value that is not below \<open>2 ^ 32\<close>.
\<close>

definition frame_buffer :: "jsstring \<Rightarrow> error + byte list" where
  "frame_buffer messageStr =
     (if length messageStr < 2 ^ 32 then
        let written = write_fit (utf8_chars messageStr) (length messageStr)
        in Inr (writeUInt32LE (length messageStr) @ written
                @ replicate (length messageStr - length written) 0)
      else Inl RangeError)"

subsection \<open>The client and what it acts on\<close>

datatype IPCConnectionState = Disconnected | Connecting | Connected

text \<open>\<open>MessageCommon\<close>: any object with a \<open>messageId\<close>; further fields extend the record.\<close>

record MessageCommon =
  messageId :: jsstring

text \<open>
  The fields of \<open>IPCService\<close>, followed by what its calls act on: the store of promises
  (a \<open>Deferred\<close> or a promise is its address there), the worker processes spawned, the
  buffers written to the standard input of a process, the processes killed, the calls of the
  message handler given to the constructor, and the timeouts armed by \<open>race\<close>.
\<close>

record IPCService =
  connectionState :: IPCConnectionState
  pendingMessages :: "jsstring \<rightharpoonup> nat"
  awaitingConnection :: "nat list"
  process :: "nat option"
  processOutputBuffer :: "byte list"
  promises :: "nat \<Rightarrow> json promise"
  allocated :: nat
  spawned :: nat
  stdin_written :: "(nat \<times> byte list) list"
  killed :: "nat list"
  handled :: "json list"
  races :: "nat \<rightharpoonup> nat"
  timers :: "(nat \<times> nat \<times> error) list"

definition new_IPCService :: IPCService where
  "new_IPCService =
     \<lparr>connectionState = Disconnected, pendingMessages = Map.empty, awaitingConnection = [],
      process = None, processOutputBuffer = [], promises = (\<lambda>a. Pending), allocated = 0,
      spawned = 0, stdin_written = [], killed = [], handled = [], races = Map.empty,
      timers = []\<rparr>"

definition DEFAULT_MESSAGE_TIMEOUT :: nat where
  "DEFAULT_MESSAGE_TIMEOUT = 10 * 1000"

text \<open>
  Modelled from the spec: \<open>Deferred\<close> (\<open>./deferred\<close> is not among the sources), "a deferred
  completion handle, resolved when a response with matching id arrives". A new one is a
  pending promise at a fresh address. Resolving or rejecting it settles the promise, and the
  promise \<open>race\<close> made from it, if any, follows.
\<close>

definition new_Deferred :: "IPCService \<Rightarrow> nat \<times> IPCService" where
  "new_Deferred st =
     (allocated st,
      st\<lparr>promises := (promises st)(allocated st := Pending), allocated := Suc (allocated st)\<rparr>)"

definition deferred_settle :: "nat \<Rightarrow> json promise \<Rightarrow> IPCService \<Rightarrow> IPCService" where
  "deferred_settle d outcome st =
     (let ps = (promises st)(d := settle outcome (promises st d))
      in case races st d of
           None \<Rightarrow> st\<lparr>promises := ps\<rparr>
         | Some r \<Rightarrow>
             st\<lparr>promises := ps(r := settle (ps d) (ps r)),
                timers := filter (\<lambda>t. fst t \<noteq> r) (timers st)\<rparr>)"

definition deferred_resolve :: "nat \<Rightarrow> json \<Rightarrow> IPCService \<Rightarrow> IPCService" where
  "deferred_resolve d v st = deferred_settle d (Resolved v) st"

definition deferred_reject :: "nat \<Rightarrow> error \<Rightarrow> IPCService \<Rightarrow> IPCService" where
  "deferred_reject d e st = deferred_settle d (Rejected e) st"

text \<open>
  Modelled from the spec: \<open>race\<close> (\<open>./race\<close> is not among the sources), which "races the
  eventual correlated response against a timeout". No operation blocks: the call returns a
  new pending promise at once and arms a timeout; it does not throw. The promise takes the
  outcome of the given one, or is rejected with the given error when the timeout fires first
  (\<open>timer_fires\<close>).
\<close>

definition race :: "nat \<Rightarrow> nat \<Rightarrow> error \<Rightarrow> IPCService \<Rightarrow> (error + nat) \<times> IPCService" where
  "race d timeout e st =
     (let r = allocated st
      in (Inr r,
          st\<lparr>promises := (promises st)(r := promises st d), allocated := Suc r,
             races := (races st)(d \<mapsto> r),
             timers := timers st @ [(r, timeout, e)]\<rparr>))"

text \<open>
  The timeout armed for promise \<open>r\<close> fires: the callback given to \<open>setTimeout\<close> rejects
  \<open>r\<close>. No code of \<open>IPCService\<close> runs.
\<close>

definition timer_fires :: "nat \<Rightarrow> IPCService \<Rightarrow> IPCService" where
  "timer_fires r st =
     (case find (\<lambda>t. fst t = r) (timers st) of
        None \<Rightarrow> st
      | Some (r', timeout, e) \<Rightarrow>
          st\<lparr>promises := (promises st)(r := settle (Rejected e) (promises st r)),
             timers := filter (\<lambda>t. fst t \<noteq> r) (timers st)\<rparr>)"

subsection \<open>connect, disconnect and the process events\<close>

text \<open>\<open>_connect\<close>: the state becomes Connecting and one worker process is spawned.\<close>

definition connect' :: "IPCService \<Rightarrow> IPCService" where
  "connect' st =
     st\<lparr>connectionState := Connecting, process := Some (spawned st),
        spawned := Suc (spawned st)\<rparr>"

text \<open>
  \<open>connect\<close> returns \<open>None\<close> when it returns at once, and the \<open>Deferred\<close> whose promise it
  returns otherwise.
\<close>

definition connect :: "IPCService \<Rightarrow> nat option \<times> IPCService" where
  "connect st =
     (if connectionState st = Connected then (None, st)
      else
        let (deferredConnections, st1) = new_Deferred st;
            st2 = st1\<lparr>awaitingConnection := awaitingConnection st1 @ [deferredConnections]\<rparr>;
            st3 = (if connectionState st2 = Disconnected then connect' st2 else st2)
        in (Some deferredConnections, st3))"

definition disconnect :: "IPCService \<Rightarrow> IPCService" where
  "disconnect st =
     (if connectionState st \<noteq> Disconnected then
        (case process st of None \<Rightarrow> st | Some p \<Rightarrow> st\<lparr>killed := killed st @ [p]\<rparr>)
      else st)"

text \<open>The handler of the "error" event of the process.\<close>

definition on_process_error :: "error \<Rightarrow> IPCService \<Rightarrow> IPCService" where
  "on_process_error e st =
     (fold (\<lambda>deferred. deferred_reject deferred e) (awaitingConnection st) st)
       \<lparr>awaitingConnection := []\<rparr>"

text \<open>The handler of the "exit" event of the process.\<close>

definition on_process_exit :: "IPCService \<Rightarrow> IPCService" where
  "on_process_exit st = st\<lparr>connectionState := Disconnected\<rparr>"

subsection \<open>sendMessage\<close>

text \<open>
  \<open>sendIpcMessage\<close>: \<open>stringify\<close> is \<open>JSON.stringify\<close>. The buffer goes to the standard input
  of the process if there is one (\<open>this.process?.stdin.write\<close>).
\<close>

definition sendIpcMessage ::
  "('m \<Rightarrow> jsstring) \<Rightarrow> 'm \<Rightarrow> IPCService \<Rightarrow> error option \<times> IPCService" where
  "sendIpcMessage stringify message st =
     (case frame_buffer (stringify message) of
        Inl e \<Rightarrow> (Some e, st)
      | Inr buffer \<Rightarrow>
          (None, case process st of
                   None \<Rightarrow> st
                 | Some p \<Rightarrow> st\<lparr>stdin_written := stdin_written st @ [(p, buffer)]\<rparr>))"

text \<open>
  \<open>sendMessage\<close> is an async function: \<open>Inl e\<close> is the promise it returns already rejected
  with \<open>e\<close> (a \<open>throw\<close> in its body), \<open>Inr r\<close> is the promise \<open>r\<close> it returns. The
  \<open>try\<close> block returns the promise of \<open>race\<close> without awaiting it, so its \<open>catch\<close> runs
  only if the call of \<open>race\<close> itself throws.
\<close>

definition sendMessage ::
  "('a MessageCommon_scheme \<Rightarrow> jsstring) \<Rightarrow> 'a MessageCommon_scheme \<Rightarrow> nat option
     \<Rightarrow> IPCService \<Rightarrow> (error + nat) \<times> IPCService" where
  "sendMessage stringify message overrideTimeout st =
     (if pendingMessages st (messageId message) \<noteq> None then
        (Inl (DuplicateMessageId (messageId message)), st)
      else
        let (deferred, st1) = new_Deferred st;
            st2 = st1\<lparr>pendingMessages := (pendingMessages st1)(messageId message \<mapsto> deferred)\<rparr>
        in case sendIpcMessage stringify message st2 of
             (Some e, st3) \<Rightarrow> (Inl e, st3)
           | (None, st3) \<Rightarrow>
               (case race deferred
                       (case overrideTimeout of None \<Rightarrow> DEFAULT_MESSAGE_TIMEOUT | Some t \<Rightarrow> t)
                       (TimedOut (messageId message)) st3 of
                  (Inl e, st4) \<Rightarrow>
                    (Inl e, st4\<lparr>pendingMessages := (pendingMessages st4)(messageId message := None)\<rparr>)
                | (Inr r, st4) \<Rightarrow> (Inr r, st4)))"

subsection \<open>Reassembly and dispatch (processIpcMessage, processMessage)\<close>

text \<open>\<open>message?.command === c\<close>\<close>

definition has_command :: "json \<Rightarrow> string \<Rightarrow> bool" where
  "has_command message c = (get_prop message (ascii ''command'') = Some (JStr (ascii c)))"

text \<open>
  \<open>message.messageId && this.pendingMessages.has(message.messageId)\<close>: the keys of the map
  are strings, so only a string can be found there. The result is the key and its entry.
\<close>

definition pending_entry :: "json \<Rightarrow> IPCService \<Rightarrow> (jsstring \<times> nat) option" where
  "pending_entry message st =
     (if truthy (get_prop message (ascii ''messageId'')) then
        (case get_prop message (ascii ''messageId'') of
           Some (JStr s) \<Rightarrow> (case pendingMessages st s of None \<Rightarrow> None | Some d \<Rightarrow> Some (s, d))
         | _ \<Rightarrow> None)
      else None)"

text \<open>\<open>processMessage\<close>; reading \<open>message.messageId\<close> of \<open>null\<close> throws a TypeError.\<close>

definition processMessage :: "json \<Rightarrow> IPCService \<Rightarrow> error option \<times> IPCService" where
  "processMessage message st =
     (if message = JNull then (Some TypeError, st)
      else case pending_entry message st of
             Some (s, deferred) \<Rightarrow>
               (None, (deferred_resolve deferred message st)
                        \<lparr>pendingMessages := (pendingMessages st)(s := None)\<rparr>)
           | None \<Rightarrow> (None, st\<lparr>handled := handled st @ [message]\<rparr>))"

text \<open>
  What the loop does with one decoded message, after the bytes of its frame have left the
  buffer: an exception thrown, if any, and the state.
\<close>

definition dispatch :: "json \<Rightarrow> IPCService \<Rightarrow> error option \<times> IPCService" where
  "dispatch message st =
     (if has_command message ''connected'' then
        (None, (fold (\<lambda>deferred. deferred_resolve deferred JNull) (awaitingConnection st)
                  (st\<lparr>connectionState := Connected\<rparr>))\<lparr>awaitingConnection := []\<rparr>)
      else if has_command message ''disconnected'' then
        (None, st\<lparr>connectionState := Disconnected\<rparr>)
      else processMessage message st)"

text \<open>
  The \<open>while (true)\<close> loop of \<open>processIpcMessage\<close>. \<open>parse\<close> is
  \<open>JSON.parse(bytes.toString())\<close>, \<open>None\<close> when it throws a SyntaxError.
  \<open>subarray\<close> clamps its bounds to the buffer.
\<close>

function process_loop ::
  "(byte list \<Rightarrow> json option) \<Rightarrow> IPCService \<Rightarrow> error option \<times> IPCService" where
  "process_loop parse st =
     (if length (processOutputBuffer st) < 4 then (None, st)
      else if readUInt32LE (processOutputBuffer st) + 4 < length (processOutputBuffer st)
      then (None, st)
      else
        (case parse (take (readUInt32LE (processOutputBuffer st))
                       (drop 4 (processOutputBuffer st))) of
           None \<Rightarrow> (Some SyntaxError, st)
         | Some message \<Rightarrow>
             (case dispatch message
                     (st\<lparr>processOutputBuffer :=
                          drop (readUInt32LE (processOutputBuffer st) + 4)
                            (processOutputBuffer st)\<rparr>) of
                (Some e, st') \<Rightarrow> (Some e, st')
              | (None, st') \<Rightarrow> process_loop parse st')))"
  by pat_completeness auto
termination
proof (relation "measure (\<lambda>(parse, st). length (processOutputBuffer st))")
  have settle: "processOutputBuffer (deferred_settle d outcome st) = processOutputBuffer st"
    for d outcome st
    by (simp add: deferred_settle_def Let_def split: option.split)
  have all: "processOutputBuffer (fold (\<lambda>deferred. deferred_resolve deferred v) ds st)
      = processOutputBuffer st" for v ds st
    by (induction ds arbitrary: st) (simp_all add: deferred_resolve_def settle)
  have dispatch_buffer: "processOutputBuffer st' = processOutputBuffer st"
    if "(r, st') = dispatch message st" for message st r st'
    using that
    by (auto simp: dispatch_def processMessage_def deferred_resolve_def settle all
             split: if_splits option.splits prod.splits)
  fix parse :: "byte list \<Rightarrow> json option" and st :: IPCService and message :: json
    and e :: "error option" and st' :: IPCService
  assume "\<not> length (processOutputBuffer st) < 4"
    and "(e, st') = dispatch message
               (st\<lparr>processOutputBuffer :=
                    drop (readUInt32LE (processOutputBuffer st) + 4) (processOutputBuffer st)\<rparr>)"
  then show "((parse, st'), (parse, st))
      \<in> measure (\<lambda>(parse, st). length (processOutputBuffer st))"
    using dispatch_buffer [of e st' message] by auto
qed simp

declare process_loop.simps [simp del]

definition processIpcMessage ::
  "(byte list \<Rightarrow> json option) \<Rightarrow> byte list \<Rightarrow> IPCService \<Rightarrow> error option \<times> IPCService" where
  "processIpcMessage parse data st =
     process_loop parse (st\<lparr>processOutputBuffer := processOutputBuffer st @ data\<rparr>)"

subsection \<open>Reachable states\<close>

text \<open>
  The states the client can be in: a new client, and what the public methods, the events of
  the process and the timeouts make of a reachable state.
\<close>

inductive reachable ::
  "(byte list \<Rightarrow> json option) \<Rightarrow> ('a MessageCommon_scheme \<Rightarrow> jsstring) \<Rightarrow> IPCService \<Rightarrow> bool"
  for parse :: "byte list \<Rightarrow> json option"
    and stringify :: "'a MessageCommon_scheme \<Rightarrow> jsstring" where
  r_new: "reachable parse stringify new_IPCService"
| r_connect: "reachable parse stringify st \<Longrightarrow> reachable parse stringify (snd (connect st))"
| r_disconnect: "reachable parse stringify st \<Longrightarrow> reachable parse stringify (disconnect st)"
| r_send:
    "reachable parse stringify st
     \<Longrightarrow> reachable parse stringify (snd (sendMessage stringify message overrideTimeout st))"
| r_data:
    "reachable parse stringify st
     \<Longrightarrow> reachable parse stringify (snd (processIpcMessage parse data st))"
| r_error: "reachable parse stringify st \<Longrightarrow> reachable parse stringify (on_process_error e st)"
| r_exit: "reachable parse stringify st \<Longrightarrow> reachable parse stringify (on_process_exit st)"
| r_timer: "reachable parse stringify st \<Longrightarrow> reachable parse stringify (timer_fires r st)"

text \<open>
  What holds of the promises in every reachable state: a \<open>Deferred\<close> that awaits the
  connection is allocated, pending and not raced, and it is neither the entry of a pending
  message nor the promise of a race or of a timeout.
\<close>

definition waiters_wf :: "IPCService \<Rightarrow> bool" where
  "waiters_wf st \<longleftrightarrow>
     (\<forall>d\<in>set (awaitingConnection st).
        d < allocated st \<and> promises st d = Pending \<and> races st d = None) \<and>
     (\<forall>k d. pendingMessages st k = Some d \<longrightarrow>
        d < allocated st \<and> d \<notin> set (awaitingConnection st)) \<and>
     (\<forall>d. allocated st \<le> d \<longrightarrow> races st d = None) \<and>
     (\<forall>d r. races st d = Some r \<longrightarrow>
        r < allocated st \<and> r \<notin> set (awaitingConnection st)) \<and>
     (\<forall>t\<in>set (timers st). fst t < allocated st \<and> fst t \<notin> set (awaitingConnection st))"

subsection \<open>Inputs of the examples\<close>

text \<open>The frame of the JSON text of an empty object.\<close>

definition empty_object_frame :: "byte list" where
  "empty_object_frame = [2, 0, 0, 0, 0x7B, 0x7D]"

text \<open>A request with the id m1, its JSON text, and a response that bears the same id.\<close>

definition m1 :: MessageCommon where
  "m1 = \<lparr>messageId = ascii ''m1''\<rparr>"

definition m1_text :: jsstring where
  \<open>m1_text = ascii ''{"messageId":"m1"}''\<close>

definition m1_response :: json where
  "m1_response = JObj [(ascii ''messageId'', JStr (ascii ''m1''))]"

text \<open>The JSON text of a message whose id is the one letter U+00E9.\<close>

definition accented_text :: jsstring where
  \<open>accented_text = ascii ''{"messageId":"'' @ [0xE9] @ ascii ''"}''\<close>

definition connected_signal :: json where
  "connected_signal = JObj [(ascii ''command'', JStr (ascii ''connected''))]"

definition disconnected_signal :: json where
  "disconnected_signal = JObj [(ascii ''command'', JStr (ascii ''disconnected''))]"

text \<open>A client on which \<open>connect\<close> was called twice before the worker was ready.\<close>

definition two_waiters :: IPCService where
  "two_waiters = snd (connect (snd (connect new_IPCService)))"

text \<open>The same client after the worker has sent the frame of its readiness signal.\<close>

definition connected_client :: IPCService where
  "connected_client =
     snd (processIpcMessage (\<lambda>bytes. Some connected_signal) empty_object_frame two_waiters)"

text \<open>
  A client that has called \<open>connect\<close> sends m1 with a timeout of 50 ms; then the timeout
  fires.
\<close>

definition m1_sent :: "(error + nat) \<times> IPCService" where
  "m1_sent = sendMessage (\<lambda>m. m1_text) m1 (Some 50) (snd (connect new_IPCService))"

definition m1_timed_out :: IPCService where
  "m1_timed_out = timer_fires 2 (snd m1_sent)"

section \<open>Session broker (BrowserFido2UserInterfaceSession)\<close>

subsection \<open>Messages\<close>

text \<open>The variants of \<open>BrowserFido2Message\<close> with their fields, in the order of the source.\<close>

datatype body =
    ConnectResponse
  | NewSessionCreatedRequest
  | PickCredentialRequest "string list" bool bool
  | PickCredentialResponse "string option" bool
  | ConfirmNewCredentialRequest string string bool bool
  | ConfirmNewCredentialResponse bool
  | ConfirmNewNonDiscoverableCredentialRequest string string bool bool
  | ConfirmNewNonDiscoverableCredentialResponse string bool
  | InformExcludedCredentialRequest "string list" bool
  | InformCredentialNotFoundRequest bool
  | AbortRequest
  | AbortResponse bool
  | LogInRequest bool
  | LogInResponse bool

datatype BrowserFido2Message = Message (msg_sessionId: string) (msg_body: body)

text \<open>The \<open>type\<close> field.\<close>

fun type_of :: "body \<Rightarrow> string" where
  "type_of ConnectResponse = ''ConnectResponse''"
| "type_of NewSessionCreatedRequest = ''NewSessionCreatedRequest''"
| "type_of (PickCredentialRequest cipherIds userVerification fallback) = ''PickCredentialRequest''"
| "type_of (PickCredentialResponse cipherId userVerified) = ''PickCredentialResponse''"
| "type_of (ConfirmNewCredentialRequest credentialName userName userVerification fallback) =
     ''ConfirmNewCredentialRequest''"
| "type_of (ConfirmNewCredentialResponse userVerified) = ''ConfirmNewCredentialResponse''"
| "type_of (ConfirmNewNonDiscoverableCredentialRequest credentialName userName userVerification
      fallback) = ''ConfirmNewNonDiscoverableCredentialRequest''"
| "type_of (ConfirmNewNonDiscoverableCredentialResponse cipherId userVerified) =
     ''ConfirmNewNonDiscoverableCredentialResponse''"
| "type_of (InformExcludedCredentialRequest existingCipherIds fallback) =
     ''InformExcludedCredentialRequest''"
| "type_of (InformCredentialNotFoundRequest fallback) = ''InformCredentialNotFoundRequest''"
| "type_of AbortRequest = ''AbortRequest''"
| "type_of (AbortResponse fallbackRequested) = ''AbortResponse''"
| "type_of (LogInRequest userVerification) = ''LogInRequest''"
| "type_of (LogInResponse userVerified) = ''LogInResponse''"

subsection \<open>The session and its calls in flight\<close>

datatype AuthenticationStatus = LoggedOut | Locked | Unlocked

text \<open>A popout is a window or a tab, with the id of \<open>window\<close> or of \<open>tab\<close>.\<close>

datatype Popout = WindowPopout nat | TabPopout nat

fun popout_id :: "Popout \<Rightarrow> nat" where
  "popout_id (WindowPopout n) = n"
| "popout_id (TabPopout n) = n"

text \<open>The public operations that await something, with their arguments.\<close>

datatype operation =
    PickCredential "string list" bool
  | ConfirmNewCredential string string bool
  | ConfirmNewNonDiscoverableCredential string string bool
  | InformExcludedCredential "string list"
  | InformCredentialNotFound
  | EnsureUnlockedVault

datatype result =
    PickCredentialResult "string option" bool
  | ConfirmNewCredentialResult bool bool
  | ConfirmNewNonDiscoverableCredentialResult string bool
  | Void

datatype outcome = Fulfilled result | Failed error

text \<open>
  Where a call of an operation stands, that is at which \<open>await\<close> it is suspended: at one
  of the three of \<open>connect\<close>; at \<open>await this.send(data)\<close> of the operation, when
  \<open>send\<close> has broadcast the message and returned but the operation has not gone on to
  call \<open>receive\<close>; at the \<open>await\<close> of \<open>receive\<close>, which has subscribed; or settled.
  A call goes on from an \<open>await\<close> in a later turn than the one that settles what it
  awaits. Its \<open>connectPromise\<close> is \<open>None\<close> as long as it has not called \<open>connect\<close>.
\<close>

datatype stage =
    AwaitingAuthStatus
  | AwaitingPopOut
  | AwaitingConnected
  | AwaitingSend
  | AwaitingResponse
  | Settled outcome

record call =
  operation :: operation
  stage :: stage
  connectPromise :: "unit promise option"

text \<open>What the session does to the outside, in order.\<close>

datatype effect =
    SendMessage BrowserFido2Message
  | ClosePopOut "Popout option"
  | PopOut string
  | DestroyNext

text \<open>
  The fields of the session. \<open>destroyed\<close>: \<open>destroy$\<close> has emitted and completed.
  \<open>aborted\<close>: the reason of the abort signal once it is aborted. The three subscriptions
  made by the constructor are live or not; \<open>closedSubs\<close> are the ids watched by the live
  subscriptions to \<open>windowClosed$\<close> and \<open>tabClosed$\<close>. A call is its index in \<open>calls\<close>.
\<close>

record session =
  sessionId :: string
  fallbackSupported :: bool
  closed :: bool
  connected :: bool
  destroyed :: bool
  aborted :: "error option"
  popout :: "Popout option"
  connectSub :: bool
  abortSub :: bool
  abortResponseSub :: bool
  closedSubs :: "nat list"
  calls :: "call list"
  effects :: "effect list"

text \<open>\<open>BrowserFido2UserInterfaceSession.sendMessage\<close>\<close>

definition send_message :: "body \<Rightarrow> session \<Rightarrow> session" where
  "send_message b st = st\<lparr>effects := effects st @ [SendMessage (Message (sessionId st) b)]\<rparr>"

text \<open>The constructor, with an abort controller that has not aborted.\<close>

definition create :: "string \<Rightarrow> bool \<Rightarrow> session" where
  "create sid fallback =
     send_message NewSessionCreatedRequest
       \<lparr>sessionId = sid, fallbackSupported = fallback, closed = False, connected = False,
        destroyed = False, aborted = None, popout = None, connectSub = True, abortSub = True,
        abortResponseSub = True, closedSubs = [], calls = [], effects = []\<rparr>"

definition settle_call :: "nat \<Rightarrow> outcome \<Rightarrow> session \<Rightarrow> session" where
  "settle_call i out st = st\<lparr>calls := (calls st)[i := (calls st ! i)\<lparr>stage := Settled out\<rparr>]\<rparr>"

text \<open>The message an operation sends, if any, and the type of the response it awaits.\<close>

fun request_of :: "session \<Rightarrow> operation \<Rightarrow> body option" where
  "request_of st (PickCredential cipherIds userVerification) =
     Some (PickCredentialRequest cipherIds userVerification (fallbackSupported st))"
| "request_of st (ConfirmNewCredential credentialName userName userVerification) =
     Some (ConfirmNewCredentialRequest credentialName userName userVerification
             (fallbackSupported st))"
| "request_of st (ConfirmNewNonDiscoverableCredential credentialName userName userVerification) =
     Some (ConfirmNewNonDiscoverableCredentialRequest credentialName userName userVerification
             (fallbackSupported st))"
| "request_of st (InformExcludedCredential existingCipherIds) =
     Some (InformExcludedCredentialRequest existingCipherIds (fallbackSupported st))"
| "request_of st InformCredentialNotFound =
     Some (InformCredentialNotFoundRequest (fallbackSupported st))"
| "request_of st EnsureUnlockedVault = None"

fun response_type :: "operation \<Rightarrow> string" where
  "response_type (PickCredential cipherIds userVerification) = ''PickCredentialResponse''"
| "response_type (ConfirmNewCredential credentialName userName userVerification) =
     ''ConfirmNewCredentialResponse''"
| "response_type (ConfirmNewNonDiscoverableCredential credentialName userName userVerification) =
     ''ConfirmNewNonDiscoverableCredentialResponse''"
| "response_type (InformExcludedCredential existingCipherIds) = ''AbortResponse''"
| "response_type InformCredentialNotFound = ''AbortResponse''"
| "response_type EnsureUnlockedVault = []"

text \<open>What an operation returns from the response it received.\<close>

fun result_of :: "operation \<Rightarrow> body \<Rightarrow> result" where
  "result_of (PickCredential cipherIds userVerification) (PickCredentialResponse cipherId userVerified) =
     PickCredentialResult cipherId userVerified"
| "result_of (ConfirmNewCredential credentialName userName userVerification)
     (ConfirmNewCredentialResponse userVerified) = ConfirmNewCredentialResult True userVerified"
| "result_of (ConfirmNewNonDiscoverableCredential credentialName userName userVerification)
     (ConfirmNewNonDiscoverableCredentialResponse cipherId userVerified) =
     ConfirmNewNonDiscoverableCredentialResult cipherId userVerified"
| "result_of op b = Void"

subsection \<open>close, abort and the subscriptions\<close>

text \<open>The \<open>catch\<close> of \<open>receive\<close>: an EmptyError becomes a SessionClosedError.\<close>

definition receive_catch :: "error \<Rightarrow> error" where
  "receive_catch e = (if e = EmptyError then SessionClosedError else e)"

text \<open>
  \<open>destroy$.next()\<close> completes every stream piped through \<open>takeUntil(destroy$)\<close>; the
  \<open>firstValueFrom\<close> of a \<open>receive\<close> that has subscribed then rejects with an EmptyError.
\<close>

definition fail_receivers :: "call list \<Rightarrow> call list" where
  "fail_receivers cs =
     map (\<lambda>c. if stage c = AwaitingResponse
               then c\<lparr>stage := Settled (Failed (receive_catch EmptyError))\<rparr> else c) cs"

text \<open>
  \<open>close\<close>. On a \<open>destroy$\<close> that has completed, \<open>next\<close> and \<open>complete\<close> do nothing,
  and a stream that subscribes to it through \<open>takeUntil\<close> afterwards is never completed
  by it.
\<close>

definition close :: "session \<Rightarrow> session" where
  "close st =
     (let st1 = st\<lparr>effects := effects st @ [ClosePopOut (popout st)], closed := True\<rparr>
      in if destroyed st1 then st1
         else st1\<lparr>effects := effects st1 @ [DestroyNext], connectSub := False,
                  abortSub := False, abortResponseSub := False, closedSubs := [],
                  calls := fail_receivers (calls st1), destroyed := True\<rparr>)"

text \<open>
  The last statement of \<open>send\<close> for call \<open>i\<close>: the message is broadcast and \<open>send\<close>
  returns. The operation is still at its \<open>await this.send(data)\<close>.
\<close>

definition send_returns :: "nat \<Rightarrow> body \<Rightarrow> session \<Rightarrow> session" where
  "send_returns i data st =
     (send_message data st)
       \<lparr>calls := (calls st)[i := (calls st ! i)\<lparr>stage := AwaitingSend\<rparr>]\<rparr>"

text \<open>
  Call \<open>i\<close> goes on after \<open>await this.connect()\<close>: \<open>ensureUnlockedVault\<close> returns,
  \<open>send\<close> broadcasts. Neither looks at \<open>closed\<close>.
\<close>

definition connect_returned :: "nat \<Rightarrow> session \<Rightarrow> session" where
  "connect_returned i st =
     (case request_of st (operation (calls st ! i)) of
        None \<Rightarrow> settle_call i (Fulfilled Void) st
      | Some data \<Rightarrow> send_returns i data st)"

text \<open>
  Call \<open>i\<close> goes on from the \<open>await\<close> it is suspended at, if what it awaits is settled.
  At \<open>await connectPromise\<close>: \<open>connect\<close> returns or throws. At
  \<open>await this.send(data)\<close>: the operation calls \<open>receive\<close>, which subscribes to the
  messages of its type. The other \<open>await\<close>s go on with the event that settles them.
\<close>

definition resume :: "nat \<Rightarrow> session \<Rightarrow> session" where
  "resume i st =
     (if i < length (calls st) then
        (case stage (calls st ! i) of
           AwaitingConnected \<Rightarrow>
             (case connectPromise (calls st ! i) of
                Some (Resolved u) \<Rightarrow> connect_returned i st
              | Some (Rejected e) \<Rightarrow> settle_call i (Failed e) st
              | _ \<Rightarrow> st)
         | AwaitingSend \<Rightarrow>
             st\<lparr>calls := (calls st)[i := (calls st ! i)\<lparr>stage := AwaitingResponse\<rparr>]\<rparr>
         | _ \<Rightarrow> st)
      else st)"

text \<open>The pending \<open>connectPromise\<close>s take the outcome \<open>p\<close>.\<close>

definition settle_connects :: "unit promise \<Rightarrow> call list \<Rightarrow> call list" where
  "settle_connects p cs =
     map (\<lambda>c. if connectPromise c = Some Pending then c\<lparr>connectPromise := Some p\<rparr> else c) cs"

text \<open>\<open>connected$.next(true)\<close>\<close>

definition connected_next :: "session \<Rightarrow> session" where
  "connected_next st =
     st\<lparr>connected := True, calls := settle_connects (Resolved ()) (calls st)\<rparr>"

text \<open>
  The abort signal fires with a reason; a signal that has aborted does not fire again. Its
  listeners run in the order they were added: the one of the constructor, which closes the
  session and then sends AbortRequest, then the ones of the \<open>connect\<close> calls, which reject
  their \<open>connectPromise\<close>.
\<close>

definition abort_signal :: "error \<Rightarrow> session \<Rightarrow> session" where
  "abort_signal reason st =
     (if aborted st \<noteq> None then st
      else
        let st1 = st\<lparr>aborted := Some reason\<rparr>;
            st2 = (if abortSub st1 then send_message AbortRequest (close st1) else st1)
        in st2\<lparr>calls := settle_connects (Rejected SessionClosedError) (calls st2)\<rparr>)"

definition abort :: "bool \<Rightarrow> session \<Rightarrow> session" where
  "abort fallback st =
     abort_signal (if fallback then UserRequestedFallbackAbortReason else AbortError) st"

text \<open>A \<open>receive\<close> that has subscribed to the type of the message takes it.\<close>

definition deliver :: "body \<Rightarrow> call list \<Rightarrow> call list" where
  "deliver b cs =
     map (\<lambda>c. if stage c = AwaitingResponse \<and> response_type (operation c) = type_of b
               then c\<lparr>stage := Settled (Fulfilled (result_of (operation c) b))\<rparr> else c) cs"

text \<open>
  A message on the shared channel reaches the subscriptions of the session through
  \<open>messages$\<close>, which keeps the messages of this session only. The subscriptions run in the
  order they were made: the two of the constructor, then the \<open>receive\<close>s.
\<close>

definition on_message :: "BrowserFido2Message \<Rightarrow> session \<Rightarrow> session" where
  "on_message msg st =
     (if msg_sessionId msg \<noteq> sessionId st then st
      else
        let st1 = (if connectSub st \<and> type_of (msg_body msg) = ''ConnectResponse''
                   then connected_next (st\<lparr>connectSub := False\<rparr>) else st);
            st2 = (case msg_body msg of
                     AbortResponse fallbackRequested \<Rightarrow>
                       if abortResponseSub st1
                       then abort fallbackRequested (close (st1\<lparr>abortResponseSub := False\<rparr>))
                       else st1
                   | _ \<Rightarrow> st1)
        in st2\<lparr>calls := deliver (msg_body msg) (calls st2)\<rparr>)"

text \<open>The channel is shared: every session gets every message.\<close>

definition broadcast :: "BrowserFido2Message \<Rightarrow> session list \<Rightarrow> session list" where
  "broadcast msg sessions = map (on_message msg) sessions"

subsection \<open>The operations and connect\<close>

text \<open>
  \<open>connect\<close> up to its first \<open>await\<close>, for call \<open>i\<close>. A \<open>throw\<close> there and the
  rejections that follow from it change nothing but the call.
\<close>

definition start_connect :: "nat \<Rightarrow> session \<Rightarrow> session" where
  "start_connect i st =
     (if closed st then settle_call i (Failed ReopenClosedSession) st
      else st\<lparr>calls := (calls st)[i := (calls st ! i)
                 \<lparr>stage := AwaitingAuthStatus,
                  connectPromise := Some (if connected st then Resolved () else Pending)\<rparr>]\<rparr>)"

text \<open>
  A public operation is called: \<open>ensureUnlockedVault\<close> calls \<open>connect\<close>; the others call
  \<open>send\<close>, which calls \<open>connect\<close> unless \<open>connected$.value\<close> is true, and broadcasts at
  once if it is.
\<close>

definition invoke :: "operation \<Rightarrow> session \<Rightarrow> session" where
  "invoke op st =
     (let i = length (calls st);
          st1 = st\<lparr>calls := calls st @
                   [\<lparr>operation = op, stage = AwaitingAuthStatus, connectPromise = None\<rparr>]\<rparr>
      in case request_of st op of
           None \<Rightarrow> start_connect i st1
         | Some data \<Rightarrow>
             if \<not> connected st1 then start_connect i st1 else send_returns i data st1)"

text \<open>
  The address of the popout; the session id is a GUID, which the query string takes as it is.
\<close>

definition popout_url :: "AuthenticationStatus \<Rightarrow> string \<Rightarrow> string" where
  "popout_url authStatus sid =
     (case authStatus of
        LoggedOut \<Rightarrow>
          ''popup/index.html?uilocation=popout#/home?sessionId='' @ sid @ ''&redirectPath=fido2''
      | Locked \<Rightarrow>
          ''popup/index.html?uilocation=popout#/lock?sessionId='' @ sid @ ''&redirectPath=fido2''
      | Unlocked \<Rightarrow> ''popup/index.html?uilocation=popout#/fido2?sessionId='' @ sid)"

text \<open>\<open>getAuthStatus\<close> answers call \<open>i\<close>: the popout is asked for.\<close>

definition auth_status_resolved :: "nat \<Rightarrow> AuthenticationStatus \<Rightarrow> session \<Rightarrow> session" where
  "auth_status_resolved i authStatus st =
     (if i < length (calls st) \<and> stage (calls st ! i) = AwaitingAuthStatus then
        st\<lparr>effects := effects st @ [PopOut (popout_url authStatus (sessionId st))],
           calls := (calls st)[i := (calls st ! i)\<lparr>stage := AwaitingPopOut\<rparr>]\<rparr>
      else st)"

text \<open>
  \<open>popOut\<close> answers call \<open>i\<close>: the popout is stored, its closing is watched (both streams
  listen to \<open>chrome.windows.onRemoved\<close>), and the call is at \<open>await connectPromise\<close>.
\<close>

definition popout_resolved :: "nat \<Rightarrow> Popout \<Rightarrow> session \<Rightarrow> session" where
  "popout_resolved i p st =
     (if i < length (calls st) \<and> stage (calls st ! i) = AwaitingPopOut then
        st\<lparr>popout := Some p, closedSubs := closedSubs st @ [popout_id p],
           calls := (calls st)[i := (calls st ! i)\<lparr>stage := AwaitingConnected\<rparr>]\<rparr>
      else st)"

text \<open>A window is removed: each live subscription that watches its id closes and aborts.\<close>

fun notify_closed :: "nat list \<Rightarrow> nat \<Rightarrow> session \<Rightarrow> session" where
  "notify_closed [] windowId st = st"
| "notify_closed (w # ws) windowId st =
     notify_closed ws windowId
       (if w = windowId \<and> w \<in> set (closedSubs st) then abort False (close st) else st)"

definition window_removed :: "nat \<Rightarrow> session \<Rightarrow> session" where
  "window_removed windowId st = notify_closed (closedSubs st) windowId st"

text \<open>Everything that can happen to a session.\<close>

datatype event =
    Invoke operation
  | Close
  | Abort bool
  | AbortSignal error
  | Receive BrowserFido2Message
  | AuthStatusResolved nat AuthenticationStatus
  | PopOutResolved nat Popout
  | Resume nat
  | WindowRemoved nat

fun step :: "event \<Rightarrow> session \<Rightarrow> session" where
  "step (Invoke op) st = invoke op st"
| "step Close st = close st"
| "step (Abort fallback) st = abort fallback st"
| "step (AbortSignal reason) st = abort_signal reason st"
| "step (Receive msg) st = on_message msg st"
| "step (AuthStatusResolved i authStatus) st = auth_status_resolved i authStatus st"
| "step (PopOutResolved i p) st = popout_resolved i p st"
| "step (Resume i) st = resume i st"
| "step (WindowRemoved windowId) st = window_removed windowId st"

definition run :: "event list \<Rightarrow> session \<Rightarrow> session" where
  "run events st = fold step events st"

text \<open>An event that is a message of another session.\<close>

fun foreign :: "string \<Rightarrow> event \<Rightarrow> bool" where
  "foreign sid (Receive msg) = (msg_sessionId msg \<noteq> sid)"
| "foreign sid ev = False"

subsection \<open>The order of teardown, and what holds of every session\<close>

text \<open>The popout was asked to close and, after that, \<open>destroy$\<close> has emitted.\<close>

fun torn_down :: "effect list \<Rightarrow> bool" where
  "torn_down [] = False"
| "torn_down (ClosePopOut p # es) = (DestroyNext \<in> set es)"
| "torn_down (e # es) = torn_down es"

fun is_abort_request :: "effect \<Rightarrow> bool" where
  "is_abort_request (SendMessage m) = (msg_body m = AbortRequest)"
| "is_abort_request e = False"

text \<open>
  Every AbortRequest sent in the effects \<open>es\<close>, which follow the effects \<open>pre\<close>, comes
  after the teardown.
\<close>

fun teardown_before_abort :: "effect list \<Rightarrow> effect list \<Rightarrow> bool" where
  "teardown_before_abort pre [] = True"
| "teardown_before_abort pre (e # es) =
     ((is_abort_request e \<longrightarrow> torn_down pre) \<and> teardown_before_abort (pre @ [e]) es)"

text \<open>
  What holds after the constructor and after every event: the session is closed exactly
  when \<open>destroy$\<close> has emitted; from then on the subscriptions of the constructor are
  gone and the teardown is among the effects; and no AbortRequest went out before it.
\<close>

definition session_wf :: "session \<Rightarrow> bool" where
  "session_wf st \<longleftrightarrow>
     closed st = destroyed st \<and>
     (destroyed st \<longrightarrow>
        \<not> connectSub st \<and> \<not> abortSub st \<and> \<not> abortResponseSub st \<and> torn_down (effects st)) \<and>
     teardown_before_abort [] (effects st)"

text \<open>
  How a state relates to the one before a step that is not the arrival of the first
  ConnectResponse.
\<close>

definition keeps :: "session \<Rightarrow> session \<Rightarrow> bool" where
  "keeps st st' \<longleftrightarrow>
     sessionId st' = sessionId st \<and> fallbackSupported st' = fallbackSupported st \<and>
     connected st' = connected st \<and> (closed st \<longrightarrow> closed st') \<and>
     (session_wf st \<longrightarrow> session_wf st')"

subsection \<open>Sessions of the examples\<close>

text \<open>
  Two sessions, each connected to its popout, with \<open>pickCredential\<close> at the \<open>await\<close> of
  its \<open>receive\<close>.
\<close>

definition session_A :: session where
  "session_A =
     run [Invoke (PickCredential [''c1'', ''c2''] False), AuthStatusResolved 0 Unlocked,
          PopOutResolved 0 (WindowPopout 7), Receive (Message ''A'' ConnectResponse),
          Resume 0, Resume 0]
       (create ''A'' True)"

definition session_B :: session where
  "session_B =
     run [Invoke (PickCredential [''c3''] True), AuthStatusResolved 0 Locked,
          PopOutResolved 0 (TabPopout 8), Receive (Message ''B'' ConnectResponse),
          Resume 0, Resume 0]
       (create ''B'' False)"

text \<open>Session A closed by its caller while connected.\<close>

definition closed_connected :: session where
  "closed_connected = run [Close] session_A"

section \<open>Properties of the framed IPC client\<close>

subsection \<open>The buffer is touched by the loop only\<close>

lemma deferred_settle_buffer [simp]:
  "processOutputBuffer (deferred_settle d outcome st) = processOutputBuffer st"
  by (simp add: deferred_settle_def Let_def split: option.split)

lemma fold_resolve_buffer [simp]:
  "processOutputBuffer (fold (\<lambda>deferred. deferred_resolve deferred v) ds st)
     = processOutputBuffer st"
  by (induction ds arbitrary: st) (simp_all add: deferred_resolve_def)

lemma dispatch_buffer:
  "dispatch message st = (r, st') \<Longrightarrow> processOutputBuffer st' = processOutputBuffer st"
  by (auto simp: dispatch_def processMessage_def deferred_resolve_def
           split: if_splits option.splits prod.splits)

subsection \<open>The promises of the callers that await the connection\<close>

lemma settle_idem [simp]: "settle outcome (settle outcome p) = settle outcome p"
  by (cases p; cases outcome) simp_all

lemma deferred_settle_fields [simp]:
  "allocated (deferred_settle d outcome st) = allocated st"
  "races (deferred_settle d outcome st) = races st"
  "pendingMessages (deferred_settle d outcome st) = pendingMessages st"
  "awaitingConnection (deferred_settle d outcome st) = awaitingConnection st"
  "connectionState (deferred_settle d outcome st) = connectionState st"
  "handled (deferred_settle d outcome st) = handled st"
  "spawned (deferred_settle d outcome st) = spawned st"
  "process (deferred_settle d outcome st) = process st"
  "stdin_written (deferred_settle d outcome st) = stdin_written st"
  "killed (deferred_settle d outcome st) = killed st"
  "set (timers (deferred_settle d outcome st)) \<subseteq> set (timers st)"
  by (auto simp: deferred_settle_def Let_def split: option.split)

lemma deferred_settle_promises_other:
  "a \<noteq> d \<Longrightarrow> races st d \<noteq> Some a
   \<Longrightarrow> promises (deferred_settle d outcome st) a = promises st a"
  by (auto simp: deferred_settle_def Let_def split: option.split)

lemma deferred_settle_promises_plain:
  "races st d = None
   \<Longrightarrow> promises (deferred_settle d outcome st) = (promises st)(d := settle outcome (promises st d))"
  by (simp add: deferred_settle_def Let_def)

lemma fold_settle_fields [simp]:
  "allocated (fold (\<lambda>d. deferred_settle d outcome) ds st) = allocated st"
  "races (fold (\<lambda>d. deferred_settle d outcome) ds st) = races st"
  "pendingMessages (fold (\<lambda>d. deferred_settle d outcome) ds st) = pendingMessages st"
  "awaitingConnection (fold (\<lambda>d. deferred_settle d outcome) ds st) = awaitingConnection st"
  "connectionState (fold (\<lambda>d. deferred_settle d outcome) ds st) = connectionState st"
  "handled (fold (\<lambda>d. deferred_settle d outcome) ds st) = handled st"
  "spawned (fold (\<lambda>d. deferred_settle d outcome) ds st) = spawned st"
  "process (fold (\<lambda>d. deferred_settle d outcome) ds st) = process st"
  "stdin_written (fold (\<lambda>d. deferred_settle d outcome) ds st) = stdin_written st"
  "killed (fold (\<lambda>d. deferred_settle d outcome) ds st) = killed st"
  by (induction ds arbitrary: st) simp_all

lemma fold_settle_timers:
  "set (timers (fold (\<lambda>d. deferred_settle d outcome) ds st)) \<subseteq> set (timers st)"
proof (induction ds arbitrary: st)
  case Nil
  show ?case by simp
next
  case (Cons d ds)
  have "set (timers (fold (\<lambda>d. deferred_settle d outcome) ds (deferred_settle d outcome st)))
          \<subseteq> set (timers (deferred_settle d outcome st))"
    by (rule Cons.IH)
  also have "\<dots> \<subseteq> set (timers st)"
    by (rule deferred_settle_fields)
  finally show ?case by simp
qed

lemma fold_settle_promises:
  "\<forall>d\<in>set ds. races st d = None
   \<Longrightarrow> promises (fold (\<lambda>d. deferred_settle d outcome) ds st)
        = (\<lambda>a. if a \<in> set ds then settle outcome (promises st a) else promises st a)"
proof (induction ds arbitrary: st)
  case Nil
  show ?case by simp
next
  case (Cons d ds)
  let ?st = "deferred_settle d outcome st"
  from Cons.prems have none: "races st d = None" and rest: "\<forall>x\<in>set ds. races ?st x = None"
    by simp_all
  from Cons.IH [OF rest] none show ?case
    by (auto simp: deferred_settle_promises_plain fun_eq_iff)
qed

lemma waiters_wf_new: "waiters_wf new_IPCService"
  by (simp add: waiters_wf_def new_IPCService_def)

lemma waiters_wf_buffer [simp]:
  "waiters_wf (st\<lparr>processOutputBuffer := b\<rparr>) = waiters_wf st"
  by (simp add: waiters_wf_def)

lemma waiters_wf_connect: "waiters_wf st \<Longrightarrow> waiters_wf (snd (connect st))"
  unfolding waiters_wf_def connect_def connect'_def new_Deferred_def Let_def
  by (auto simp: less_Suc_eq split: if_splits)


lemma waiters_wf_disconnect: "waiters_wf st \<Longrightarrow> waiters_wf (disconnect st)"
  by (simp add: waiters_wf_def disconnect_def split: option.split)

lemma waiters_wf_exit: "waiters_wf st \<Longrightarrow> waiters_wf (on_process_exit st)"
  by (simp add: waiters_wf_def on_process_exit_def)

lemma waiters_wf_timer: "waiters_wf st \<Longrightarrow> waiters_wf (timer_fires r st)"
  unfolding waiters_wf_def timer_fires_def
  by (auto split: option.split dest!: find_Some_iff [THEN iffD1] simp: nth_mem)

lemma waiters_wf_shrink:
  assumes wf: "waiters_wf st"
    and al: "allocated st' = allocated st"
    and ra: "races st' = races st"
    and tm: "set (timers st') \<subseteq> set (timers st)"
    and aw: "set (awaitingConnection st') \<subseteq> set (awaitingConnection st)"
    and pr: "\<forall>a\<in>set (awaitingConnection st'). promises st' a = promises st a"
    and pe: "\<forall>k d. pendingMessages st' k = Some d \<longrightarrow> pendingMessages st k = Some d"
  shows "waiters_wf st'"
proof -
  from wf aw pr al ra
  have 1: "\<forall>d\<in>set (awaitingConnection st').
      d < allocated st' \<and> promises st' d = Pending \<and> races st' d = None"
    unfolding waiters_wf_def by (metis subsetD)
  from wf aw pe al
  have 2: "\<forall>k d. pendingMessages st' k = Some d \<longrightarrow>
      d < allocated st' \<and> d \<notin> set (awaitingConnection st')"
    unfolding waiters_wf_def by (metis subsetD)
  from wf al ra have 3: "\<forall>d. allocated st' \<le> d \<longrightarrow> races st' d = None"
    unfolding waiters_wf_def by simp
  from wf aw al ra
  have 4: "\<forall>d r. races st' d = Some r \<longrightarrow>
      r < allocated st' \<and> r \<notin> set (awaitingConnection st')"
    unfolding waiters_wf_def by (metis subsetD)
  from wf aw tm al
  have 5: "\<forall>t\<in>set (timers st').
      fst t < allocated st' \<and> fst t \<notin> set (awaitingConnection st')"
    unfolding waiters_wf_def by (metis subsetD)
  from 1 2 3 4 5 show ?thesis
    unfolding waiters_wf_def by blast
qed

lemma waiters_wf_settle_all:
  assumes "waiters_wf st"
  shows "waiters_wf ((fold (\<lambda>d. deferred_settle d outcome) (awaitingConnection st) st)
                       \<lparr>awaitingConnection := []\<rparr>)"
  using assms
proof (rule waiters_wf_shrink)
  show "set (timers ((fold (\<lambda>d. deferred_settle d outcome) (awaitingConnection st) st)
                       \<lparr>awaitingConnection := []\<rparr>)) \<subseteq> set (timers st)"
    using fold_settle_timers [of outcome "awaitingConnection st" st] by simp
qed simp_all

lemma deferred_resolve_eq: "deferred_resolve d v = deferred_settle d (Resolved v)"
  by (simp add: fun_eq_iff deferred_resolve_def)

lemma deferred_reject_eq: "deferred_reject d e = deferred_settle d (Rejected e)"
  by (simp add: fun_eq_iff deferred_reject_def)

lemma waiters_wf_error: "waiters_wf st \<Longrightarrow> waiters_wf (on_process_error e st)"
  unfolding on_process_error_def deferred_reject_eq by (rule waiters_wf_settle_all)

lemma waiters_wf_state [simp]:
  "waiters_wf (st\<lparr>connectionState := c\<rparr>) = waiters_wf st"
  by (simp add: waiters_wf_def)

lemma waiters_wf_processMessage:
  assumes "waiters_wf st"
  shows "waiters_wf (snd (processMessage message st))"
proof (cases "message = JNull")
  case True
  with assms show ?thesis by (simp add: processMessage_def)
next
  case False
  show ?thesis
  proof (cases "pending_entry message st")
    case None
    with False assms show ?thesis
      by (simp add: processMessage_def waiters_wf_def)
  next
    case (Some sd)
    obtain s d where sd: "sd = (s, d)" by (cases sd)
    from Some sd have pend: "pendingMessages st s = Some d"
      by (auto simp: pending_entry_def split: if_splits option.splits json.splits)
    with assms have d: "d \<notin> set (awaitingConnection st)"
      and r: "\<forall>r. races st d = Some r \<longrightarrow> r \<notin> set (awaitingConnection st)"
      by (auto simp: waiters_wf_def)
    have "waiters_wf ((deferred_settle d (Resolved message) st)
        \<lparr>pendingMessages := (pendingMessages st)(s := None)\<rparr>)"
      using assms
    proof (rule waiters_wf_shrink)
      show "\<forall>a\<in>set (awaitingConnection ((deferred_settle d (Resolved message) st)
                \<lparr>pendingMessages := (pendingMessages st)(s := None)\<rparr>)).
          promises ((deferred_settle d (Resolved message) st)
                \<lparr>pendingMessages := (pendingMessages st)(s := None)\<rparr>) a = promises st a"
        using d r by (auto intro!: deferred_settle_promises_other)
    qed (simp_all add: deferred_settle_fields)
    with False Some sd show ?thesis
      by (simp add: processMessage_def deferred_resolve_def)
  qed
qed

lemma waiters_wf_dispatch:
  assumes "waiters_wf st"
  shows "waiters_wf (snd (dispatch message st))"
proof -
  have "waiters_wf ((fold (\<lambda>d. deferred_settle d (Resolved JNull)) (awaitingConnection st)
                       (st\<lparr>connectionState := Connected\<rparr>))\<lparr>awaitingConnection := []\<rparr>)"
    using waiters_wf_settle_all [of "st\<lparr>connectionState := Connected\<rparr>" "Resolved JNull"] assms
    by simp
  with assms show ?thesis
    by (simp add: dispatch_def deferred_resolve_eq waiters_wf_processMessage)
qed

lemma waiters_wf_loop: "waiters_wf st \<Longrightarrow> waiters_wf (snd (process_loop parse st))"
proof (induction parse st rule: process_loop.induct)
  case (1 parse st)
  show ?case
  proof (cases "length (processOutputBuffer st) < 4
      \<or> readUInt32LE (processOutputBuffer st) + 4 < length (processOutputBuffer st)")
    case True
    with "1.prems" show ?thesis by (subst process_loop.simps) auto
  next
    case False
    let ?payload = "take (readUInt32LE (processOutputBuffer st)) (drop 4 (processOutputBuffer st))"
    let ?st1 = "st\<lparr>processOutputBuffer :=
        drop (readUInt32LE (processOutputBuffer st) + 4) (processOutputBuffer st)\<rparr>"
    show ?thesis
    proof (cases "parse ?payload")
      case None
      with False "1.prems" show ?thesis by (subst process_loop.simps) auto
    next
      case (Some message)
      obtain e st' where d: "dispatch message ?st1 = (e, st')"
        by (cases "dispatch message ?st1")
      have wf': "waiters_wf st'"
        using waiters_wf_dispatch [of ?st1 message] "1.prems" d by simp
      show ?thesis
      proof (cases e)
        case None
        with False Some d wf' "1.IH" show ?thesis
          by (subst process_loop.simps) auto
      next
        case (Some err)
        with False \<open>parse ?payload = Some message\<close> d wf' show ?thesis
          by (subst process_loop.simps) auto
      qed
    qed
  qed
qed

lemma waiters_wf_data: "waiters_wf st \<Longrightarrow> waiters_wf (snd (processIpcMessage parse data st))"
  by (simp add: processIpcMessage_def waiters_wf_loop)

lemma waiters_wf_send:
  "waiters_wf st \<Longrightarrow> waiters_wf (snd (sendMessage stringify message overrideTimeout st))"
  unfolding waiters_wf_def sendMessage_def sendIpcMessage_def race_def new_Deferred_def Let_def
  by (auto simp: less_Suc_eq split: sum.splits option.splits if_splits)

lemma reachable_waiters_wf: "reachable parse stringify st \<Longrightarrow> waiters_wf st"
  by (induction rule: reachable.induct)
     (simp_all add: waiters_wf_new waiters_wf_connect waiters_wf_disconnect waiters_wf_send
        waiters_wf_data waiters_wf_error waiters_wf_exit waiters_wf_timer)

lemma settle_all_promises:
  assumes "waiters_wf st" and "d \<in> set (awaitingConnection st)"
  shows "promises (fold (\<lambda>d. deferred_settle d outcome) (awaitingConnection st)
                     (st\<lparr>connectionState := c\<rparr>)) d = outcome"
proof -
  from assms
  have none: "\<forall>x\<in>set (awaitingConnection st). races (st\<lparr>connectionState := c\<rparr>) x = None"
    and pend: "promises st d = Pending"
    by (simp_all add: waiters_wf_def)
  from fold_settle_promises [OF none, of outcome] assms(2) pend show ?thesis
    by simp
qed

subsection \<open>Reassembly\<close>

lemmas framing_defs = frame_buffer_def ascii_def writeUInt32LE_def utf8_code_point_def
  is_high_surrogate_def is_low_surrogate_def Let_def utf8_def

text \<open>
  The loop stops without reading a message whenever the buffer holds more bytes than the
  first frame: the comparison that should wait for a frame that is not complete returns on
  a frame that is followed by anything.
\<close>

lemma process_loop_stalls:
  "4 \<le> length (processOutputBuffer st)
   \<Longrightarrow> readUInt32LE (processOutputBuffer st) + 4 < length (processOutputBuffer st)
   \<Longrightarrow> process_loop parse st = (None, st)"
  by (subst process_loop.simps) simp

text \<open>
  A frame that is not complete is not waited for: its bytes so far go to the parser, and a
  parser that rejects them ends the handler with a SyntaxError.
\<close>

lemma partial_frame_is_parsed:
  "parse [0x7B] = None
   \<Longrightarrow> processIpcMessage parse [2, 0, 0, 0, 0x7B] new_IPCService
       = (Some SyntaxError, new_IPCService\<lparr>processOutputBuffer := [2, 0, 0, 0, 0x7B]\<rparr>)"
  by (subst processIpcMessage_def, subst process_loop.simps)
     (simp add: new_IPCService_def readUInt32LE_def)

text \<open>
  One complete frame that comes alone, on an empty buffer, is dispatched: the loop fails
  only when more than one frame, or less, is in the buffer.
\<close>

lemma readUInt32LE_writeUInt32LE:
  assumes "v < 2 ^ 32"
  shows "readUInt32LE (writeUInt32LE v @ rest) = v"
proof -
  have b: "unat (of_nat n :: byte) = n mod 256" for n
    by (simp add: unat_of_nat)
  define a where "a = v div 256"
  define b' where "b' = a div 256"
  define c where "c = b' div 256"
  have d2: "v div 65536 = b'"
    unfolding b'_def a_def by (simp add: div_mult2_eq [symmetric])
  have d3: "v div 16777216 = c"
    unfolding c_def b'_def a_def by (simp add: div_mult2_eq [symmetric])
  have c: "c < 256"
    using assms d3 by (simp add: less_mult_imp_div_less)
  have "v mod 256 + 256 * (a mod 256) + 65536 * (b' mod 256) + 16777216 * (c mod 256) = v"
  proof -
    have 1: "v = 256 * a + v mod 256" by (simp add: a_def)
    have 2: "a = 256 * b' + a mod 256" by (simp add: b'_def)
    have 3: "b' = 256 * c + b' mod 256" by (simp add: c_def)
    from c have 4: "c mod 256 = c" by simp
    from 1 2 3 4 show ?thesis by linarith
  qed
  then show ?thesis
    by (simp add: readUInt32LE_def writeUInt32LE_def b d2 d3 a_def [symmetric])
qed

lemma single_frame_event:
  assumes "processOutputBuffer st = []" and "length payload < 2 ^ 32"
    and "parse payload = Some message"
  shows "processIpcMessage parse (writeUInt32LE (length payload) @ payload) st
           = dispatch message st"
proof -
  let ?data = "writeUInt32LE (length payload) @ payload"
  let ?st0 = "st\<lparr>processOutputBuffer := processOutputBuffer st @ ?data\<rparr>"
  have len: "length (writeUInt32LE (length payload)) = 4"
    by (simp add: writeUInt32LE_def)
  have rd: "readUInt32LE ?data = length payload"
    using assms(2) by (rule readUInt32LE_writeUInt32LE)
  have st: "st\<lparr>processOutputBuffer := []\<rparr> = st"
    using assms(1) by (cases st) simp
  obtain e st' where d: "dispatch message st = (e, st')"
    by (cases "dispatch message st")
  have buf: "processOutputBuffer st' = []"
    using dispatch_buffer [OF d] assms(1) by simp
  have stop: "process_loop parse st' = (None, st')"
    using buf by (subst process_loop.simps) simp
  have "process_loop parse ?st0 = dispatch message st"
    using assms(3) len rd d stop
    by (subst process_loop.simps) (auto simp: assms(1) st split: option.split)
  then show ?thesis
    by (simp add: processIpcMessage_def)
qed

text \<open>
  C1, at the failing input. One data event brings two complete frames, each the frame of
  the text of an empty object. Whatever the parser, no message is dispatched: the handler
  is not called, and both frames stay in the buffer.
\<close>

theorem two_frames_dispatch_nothing:
  "frame_buffer (ascii ''{}'') = Inr empty_object_frame \<and>
   processIpcMessage parse (empty_object_frame @ empty_object_frame) new_IPCService
     = (None, new_IPCService\<lparr>processOutputBuffer := empty_object_frame @ empty_object_frame\<rparr>) \<and>
   handled (snd (processIpcMessage parse (empty_object_frame @ empty_object_frame)
                   new_IPCService)) = []"
proof -
  have 1: "frame_buffer (ascii ''{}'') = Inr empty_object_frame"
    by (simp add: framing_defs empty_object_frame_def)
  have 2: "processIpcMessage parse (empty_object_frame @ empty_object_frame) new_IPCService
      = (None, new_IPCService\<lparr>processOutputBuffer := empty_object_frame @ empty_object_frame\<rparr>)"
    unfolding processIpcMessage_def
    by (subst process_loop.simps)
       (simp add: new_IPCService_def empty_object_frame_def readUInt32LE_def)
  from 1 2 show ?thesis
    by (simp add: new_IPCService_def)
qed

subsection \<open>Timeouts and duplicate ids\<close>

lemmas client_defs = connect_def connect'_def new_Deferred_def new_IPCService_def
  sendMessage_def sendIpcMessage_def race_def timer_fires_def processMessage_def
  pending_entry_def deferred_resolve_def deferred_settle_def

text \<open>
  C2, at the failing input. The request m1 is sent with a timeout of 50 ms and gets no
  response. When the timeout fires, the promise returned by \<open>sendMessage\<close> is rejected
  with the timeout error, but the entry of m1 is still in \<open>pendingMessages\<close>. A response
  with the id m1 that comes afterwards is matched with that entry and removed with it: the
  message handler is not called.
\<close>

theorem timeout_keeps_pending_entry:
  "fst m1_sent = Inr 2 \<and>
   promises m1_timed_out 2 = Rejected (TimedOut (ascii ''m1'')) \<and>
   pendingMessages m1_timed_out (ascii ''m1'') = Some 1 \<and>
   fst (processMessage m1_response m1_timed_out) = None \<and>
   handled (snd (processMessage m1_response m1_timed_out)) = [] \<and>
   pendingMessages (snd (processMessage m1_response m1_timed_out)) (ascii ''m1'') = None"
  by (simp add: m1_timed_out_def m1_sent_def client_defs m1_def m1_text_def m1_response_def
        framing_defs)

text \<open>
  On a text of ASCII characters the count of code units is the count of bytes, and the
  buffer is the length of the UTF-8 text followed by the text.
\<close>

lemma utf8_chars_ascii:
  "\<forall>u\<in>set s. u < 0x80 \<Longrightarrow> utf8_chars s = map (\<lambda>u. [of_nat (unat u)]) s"
proof (induction s rule: utf8_chars.induct)
  case 1
  show ?case by simp
next
  case (2 u)
  then have "u < 0x80" by simp
  then have "\<not> is_high_surrogate u" "\<not> is_low_surrogate u" "unat u < 0x80"
    by (simp_all add: is_high_surrogate_def is_low_surrogate_def word_less_nat_alt word_le_nat_alt)
  then show ?case by (simp add: utf8_code_point_def)
next
  case (3 u v us)
  then have "u < 0x80" by simp
  then have u: "\<not> is_high_surrogate u" "\<not> is_low_surrogate u" "unat u < 0x80"
    by (simp_all add: is_high_surrogate_def is_low_surrogate_def word_less_nat_alt word_le_nat_alt)
  with 3 show ?case by (simp add: utf8_code_point_def)
qed

lemma write_fit_singletons:
  "length xs \<le> room \<Longrightarrow> write_fit (map (\<lambda>x. [f x]) xs) room = map f xs"
  by (induction xs arbitrary: room) auto

lemma ascii_frame_buffer:
  assumes "\<forall>u\<in>set s. u < 0x80" and "length s < 2 ^ 32"
  shows "length (utf8 s) = length s"
    and "frame_buffer s = Inr (writeUInt32LE (length (utf8 s)) @ utf8 s)"
proof -
  have u: "utf8 s = map (\<lambda>u. of_nat (unat u)) s"
    using assms(1) by (simp add: utf8_def utf8_chars_ascii)
  then show l: "length (utf8 s) = length s" by simp
  have "write_fit (utf8_chars s) (length s) = utf8 s"
    using assms(1) u by (simp add: utf8_chars_ascii write_fit_singletons)
  with assms(2) l show "frame_buffer s = Inr (writeUInt32LE (length (utf8 s)) @ utf8 s)"
    by (simp add: frame_buffer_def)
qed

text \<open>
  C3, at the failing input. The JSON text has 17 code units and 18 bytes in UTF-8, since
  U+00E9 takes two bytes. The buffer written to the process has the prefix 17 and the first
  17 bytes of the text: the closing brace is cut off.
\<close>

theorem non_ascii_frame_truncated:
  "length accented_text = 17 \<and> length (utf8 accented_text) = 18 \<and>
   sendIpcMessage (\<lambda>m. accented_text) message (snd (connect new_IPCService))
     = (None, (snd (connect new_IPCService))
                \<lparr>stdin_written := [(0, writeUInt32LE 17 @ take 17 (utf8 accented_text))]\<rparr>)"
  by (simp add: connect_def connect'_def new_Deferred_def new_IPCService_def
        sendIpcMessage_def accented_text_def framing_defs)

text \<open>
  C4. A call of \<open>sendMessage\<close> with an id that is pending is rejected with the duplicate-id
  error and leaves the client as it was: nothing is written to the process, and the entry
  and the promise of the earlier request are untouched.
\<close>

theorem sendMessage_duplicate_rejected:
  "pendingMessages st (messageId message) \<noteq> None
   \<Longrightarrow> sendMessage stringify message overrideTimeout st
       = (Inl (DuplicateMessageId (messageId message)), st)"
  by (simp add: sendMessage_def)

theorem sendMessage_duplicate_rejected_witness:
  "pendingMessages (snd m1_sent) (messageId m1) \<noteq> None \<and>
   sendMessage (\<lambda>m. m1_text) m1 None (snd m1_sent)
     = (Inl (DuplicateMessageId (ascii ''m1'')), snd m1_sent)"
proof -
  have h: "pendingMessages (snd m1_sent) (messageId m1) \<noteq> None"
    by (simp add: m1_sent_def client_defs m1_def m1_text_def framing_defs)
  show ?thesis
    using h sendMessage_duplicate_rejected [OF h, of "\<lambda>m. m1_text" None]
    by (simp add: m1_def)
qed

subsection \<open>Connecting\<close>

text \<open>
  C5. In a reachable state: \<open>connect\<close> returns at once and changes nothing when the state
  is Connected; when it is Connecting, the caller joins the callers that wait and no process
  is spawned; when it is Disconnected, one process is spawned. When the message with the
  command "connected" is dispatched, the state becomes Connected, every caller that waited
  is resolved and the set is cleared. When the process reports an error, every caller that
  waited is rejected with it and the set is cleared.
\<close>

theorem connect_joins_one_attempt:
  assumes "reachable parse stringify st"
  shows "(connectionState st = Connected \<longrightarrow> connect st = (None, st)) \<and>
         (connectionState st = Connecting \<longrightarrow>
            fst (connect st) = Some (allocated st) \<and>
            awaitingConnection (snd (connect st)) = awaitingConnection st @ [allocated st] \<and>
            promises (snd (connect st)) (allocated st) = Pending \<and>
            spawned (snd (connect st)) = spawned st \<and>
            process (snd (connect st)) = process st \<and>
            connectionState (snd (connect st)) = Connecting) \<and>
         (connectionState st = Disconnected \<longrightarrow>
            spawned (snd (connect st)) = Suc (spawned st) \<and>
            connectionState (snd (connect st)) = Connecting) \<and>
         (has_command message ''connected'' \<longrightarrow>
            fst (dispatch message st) = None \<and>
            connectionState (snd (dispatch message st)) = Connected \<and>
            awaitingConnection (snd (dispatch message st)) = [] \<and>
            (\<forall>d\<in>set (awaitingConnection st).
               promises (snd (dispatch message st)) d = Resolved JNull)) \<and>
         awaitingConnection (on_process_error e st) = [] \<and>
         (\<forall>d\<in>set (awaitingConnection st).
            promises (on_process_error e st) d = Rejected e)"
proof -
  from assms have wf: "waiters_wf st"
    by (rule reachable_waiters_wf)
  have a: "connectionState st = Connected \<longrightarrow> connect st = (None, st)"
    by (simp add: connect_def)
  have b: "connectionState st = Connecting \<longrightarrow>
            fst (connect st) = Some (allocated st) \<and>
            awaitingConnection (snd (connect st)) = awaitingConnection st @ [allocated st] \<and>
            promises (snd (connect st)) (allocated st) = Pending \<and>
            spawned (snd (connect st)) = spawned st \<and>
            process (snd (connect st)) = process st \<and>
            connectionState (snd (connect st)) = Connecting"
    by (simp add: connect_def new_Deferred_def)
  have c: "connectionState st = Disconnected \<longrightarrow>
            spawned (snd (connect st)) = Suc (spawned st) \<and>
            connectionState (snd (connect st)) = Connecting"
    by (simp add: connect_def new_Deferred_def connect'_def)
  have d: "has_command message ''connected'' \<longrightarrow>
            fst (dispatch message st) = None \<and>
            connectionState (snd (dispatch message st)) = Connected \<and>
            awaitingConnection (snd (dispatch message st)) = [] \<and>
            (\<forall>d\<in>set (awaitingConnection st).
               promises (snd (dispatch message st)) d = Resolved JNull)"
    using settle_all_promises [OF wf, of _ "Resolved JNull" Connected]
    by (simp add: dispatch_def deferred_resolve_eq)
  have e1: "awaitingConnection (on_process_error e st) = []"
    by (simp add: on_process_error_def)
  have e2: "\<forall>d\<in>set (awaitingConnection st). promises (on_process_error e st) d = Rejected e"
    using settle_all_promises [OF wf, of _ "Rejected e" "connectionState st"]
    by (simp add: on_process_error_def deferred_reject_eq)
  from a b c d e1 e2 show ?thesis
    by blast
qed

theorem connect_joins_one_attempt_witness:
  "connectionState two_waiters = Connecting \<and> spawned two_waiters = 1 \<and>
   awaitingConnection two_waiters = [0, 1] \<and>
   spawned (snd (connect two_waiters)) = 1 \<and>
   awaitingConnection (snd (connect two_waiters)) = [0, 1, 2] \<and>
   has_command connected_signal ''connected'' \<and>
   promises (snd (dispatch connected_signal two_waiters)) 0 = Resolved JNull \<and>
   promises (snd (dispatch connected_signal two_waiters)) 1 = Resolved JNull \<and>
   promises (on_process_error ProcessError two_waiters) 0 = Rejected ProcessError \<and>
   promises (on_process_error ProcessError two_waiters) 1 = Rejected ProcessError \<and>
   connectionState connected_client = Connected \<and>
   connect connected_client = (None, connected_client) \<and>
   connectionState new_IPCService = Disconnected \<and>
   spawned (snd (connect new_IPCService)) = 1"
proof -
  have r: "reachable parse stringify two_waiters" for parse
    and stringify :: "MessageCommon \<Rightarrow> jsstring"
    unfolding two_waiters_def by (intro r_connect r_new)
  have rc: "reachable (\<lambda>bytes. Some connected_signal) (\<lambda>m :: MessageCommon. []) connected_client"
    unfolding connected_client_def by (intro r_data r)
  have rn: "reachable (\<lambda>bytes. None) (\<lambda>m :: MessageCommon. []) new_IPCService"
    by (rule r_new)
  have s: "connectionState two_waiters = Connecting \<and> spawned two_waiters = 1 \<and>
      awaitingConnection two_waiters = [0, 1] \<and> allocated two_waiters = 2 \<and>
      processOutputBuffer two_waiters = []"
    by (simp add: two_waiters_def connect_def connect'_def new_Deferred_def new_IPCService_def)
  have h: "has_command connected_signal ''connected''"
    by (simp add: has_command_def connected_signal_def)
  have cc: "connected_client = snd (dispatch connected_signal two_waiters)"
    unfolding connected_client_def
    using single_frame_event [of two_waiters "[0x7B, 0x7D]" "\<lambda>bytes. Some connected_signal"
      connected_signal] s
    by (simp add: empty_object_frame_def writeUInt32LE_def)
  have c: "connectionState connected_client = Connected"
    unfolding cc using h by (simp add: dispatch_def deferred_resolve_eq)
  have n: "connectionState new_IPCService = Disconnected \<and> spawned new_IPCService = 0"
    by (simp add: new_IPCService_def)
  show ?thesis
    using connect_joins_one_attempt
        [OF r [of "\<lambda>bs. None" "\<lambda>m. []"], of connected_signal ProcessError]
      connect_joins_one_attempt [OF rc, of connected_signal ProcessError]
      connect_joins_one_attempt [OF rn, of connected_signal ProcessError] s h c n
    by simp
qed

text \<open>
  C10. Dispatching a decoded message with the command "disconnected" sets the connection
  state to Disconnected and leaves every other field as it was, the pending messages and
  the callers that await the connection among them. The same holds of the data event that
  brings the frame of that message alone, on an empty buffer.
\<close>

theorem disconnected_changes_state_only:
  assumes "has_command message ''disconnected''"
  shows "dispatch message st = (None, st\<lparr>connectionState := Disconnected\<rparr>) \<and>
         (processOutputBuffer st = [] \<and> length payload < 2 ^ 32 \<and> parse payload = Some message
          \<longrightarrow> processIpcMessage parse (writeUInt32LE (length payload) @ payload) st
                = (None, st\<lparr>connectionState := Disconnected\<rparr>))"
proof -
  have d: "dispatch message st = (None, st\<lparr>connectionState := Disconnected\<rparr>)"
    using assms by (simp add: dispatch_def has_command_def ascii_def)
  with single_frame_event [of st payload parse message] show ?thesis
    by simp
qed

theorem disconnected_changes_state_only_witness:
  "has_command disconnected_signal ''disconnected'' \<and>
   dispatch disconnected_signal two_waiters
     = (None, two_waiters\<lparr>connectionState := Disconnected\<rparr>) \<and>
   processIpcMessage (\<lambda>bytes. Some disconnected_signal) empty_object_frame two_waiters
     = (None, two_waiters\<lparr>connectionState := Disconnected\<rparr>)"
proof -
  have h: "has_command disconnected_signal ''disconnected''"
    by (simp add: has_command_def disconnected_signal_def)
  have b: "processOutputBuffer two_waiters = []"
    by (simp add: two_waiters_def connect_def connect'_def new_Deferred_def new_IPCService_def)
  have f: "empty_object_frame = writeUInt32LE (length [0x7B, 0x7D :: byte]) @ [0x7B, 0x7D]"
    by (simp add: empty_object_frame_def writeUInt32LE_def)
  show ?thesis
    using h b disconnected_changes_state_only
      [OF h, of two_waiters "[0x7B, 0x7D]" "\<lambda>bytes. Some disconnected_signal"]
    by (simp add: f)
qed

section \<open>Properties of the session broker\<close>

lemmas session_defs = create_def send_message_def invoke_def start_connect_def settle_call_def
  auth_status_resolved_def popout_resolved_def resume_def connect_returned_def
  send_returns_def on_message_def connected_next_def settle_connects_def deliver_def close_def
  fail_receivers_def abort_def abort_signal_def receive_catch_def popout_url_def run_def
  window_removed_def Let_def

subsection \<open>What every step keeps\<close>

lemma torn_down_append: "torn_down es \<Longrightarrow> torn_down (es @ new)"
proof (induction es)
  case Nil
  then show ?case by simp
next
  case (Cons e es)
  then show ?case by (cases e) simp_all
qed

lemma torn_down_close: "torn_down (es @ [ClosePopOut p, DestroyNext])"
proof (induction es)
  case Nil
  show ?case by simp
next
  case (Cons e es)
  then show ?case by (cases e) simp_all
qed

lemma teardown_before_abort_append:
  "teardown_before_abort pre (es @ es')
     \<longleftrightarrow> teardown_before_abort pre es \<and> teardown_before_abort (pre @ es) es'"
  by (induction es arbitrary: pre) auto

lemma keeps_refl [simp]: "keeps st st"
  by (simp add: keeps_def)

lemma keeps_trans: "keeps st st' \<Longrightarrow> keeps st' st'' \<Longrightarrow> keeps st st''"
  by (simp add: keeps_def)

lemma session_wf_calls [simp]: "session_wf (st\<lparr>calls := cs\<rparr>) = session_wf st"
  by (simp add: session_wf_def)

lemma keeps_calls [simp]: "keeps st (st\<lparr>calls := cs\<rparr>)"
  by (simp add: keeps_def)

lemma session_wf_send:
  assumes "session_wf st" and "b = AbortRequest \<longrightarrow> destroyed st"
  shows "session_wf (send_message b st)"
  using assms
  by (auto simp: session_wf_def send_message_def teardown_before_abort_append torn_down_append)

lemma keeps_send: "b \<noteq> AbortRequest \<Longrightarrow> keeps st (send_message b st)"
  unfolding keeps_def using session_wf_send [of st b] by (simp add: send_message_def)

lemma request_not_abort: "request_of st op = Some data \<Longrightarrow> data \<noteq> AbortRequest"
  by (cases op) auto

lemma keeps_settle_call [simp]: "keeps st (settle_call i out st)"
  by (simp add: settle_call_def)

lemma keeps_send_returns: "data \<noteq> AbortRequest \<Longrightarrow> keeps st (send_returns i data st)"
  using keeps_send [of data st]
  by (simp add: send_returns_def keeps_def send_message_def)

lemma keeps_connect_returned: "keeps st (connect_returned i st)"
  by (auto simp: connect_returned_def split: option.split
           intro: keeps_send_returns dest: request_not_abort)

lemma keeps_resume: "keeps st (resume i st)"
  by (simp add: resume_def keeps_connect_returned split: stage.split option.split promise.split)

lemma close_fields [simp]:
  "sessionId (close st) = sessionId st" "fallbackSupported (close st) = fallbackSupported st"
  "connected (close st) = connected st"
  "closed (close st)" "aborted (close st) = aborted st" "destroyed (close st)"
  "length (calls (close st)) = length (calls st)"
  by (simp_all add: close_def Let_def fail_receivers_def)

lemma session_wf_close: "session_wf st \<Longrightarrow> session_wf (close st)"
  using torn_down_close [of "effects st" "popout st"]
  by (auto simp: session_wf_def close_def Let_def teardown_before_abort_append torn_down_append)

lemma keeps_close: "keeps st (close st)"
  by (simp add: keeps_def session_wf_close)

lemma keeps_abort_signal: "keeps st (abort_signal reason st)"
proof (cases "aborted st \<noteq> None")
  case True
  then show ?thesis by (simp add: abort_signal_def)
next
  case False
  let ?st1 = "st\<lparr>aborted := Some reason\<rparr>"
  let ?st2 = "if abortSub ?st1 then send_message AbortRequest (close ?st1) else ?st1"
  have 1: "keeps st ?st1"
    by (simp add: keeps_def session_wf_def)
  have "keeps ?st1 (send_message AbortRequest (close ?st1))"
    unfolding keeps_def
    using session_wf_close [of ?st1] session_wf_send [of "close ?st1" AbortRequest]
    by (simp add: send_message_def)
  then have 2: "keeps ?st1 ?st2" by simp
  have 3: "keeps ?st2 (?st2\<lparr>calls := settle_connects (Rejected SessionClosedError) (calls ?st2)\<rparr>)"
    by (rule keeps_calls)
  from False have "abort_signal reason st
      = ?st2\<lparr>calls := settle_connects (Rejected SessionClosedError) (calls ?st2)\<rparr>"
    by (simp add: abort_signal_def Let_def)
  with keeps_trans [OF keeps_trans [OF 1 2] 3] show ?thesis by simp
qed

lemma keeps_abort: "keeps st (abort fallback st)"
  by (simp add: abort_def keeps_abort_signal)

lemma connected_next_fields:
  "sessionId (connected_next st) = sessionId st"
  "session_wf st \<Longrightarrow> session_wf (connected_next (st\<lparr>connectSub := False\<rparr>))"
  by (simp_all add: connected_next_def session_wf_def)

lemma keeps_abort_response: "keeps st (abort f (close (st\<lparr>abortResponseSub := False\<rparr>)))"
proof -
  have 1: "keeps st (st\<lparr>abortResponseSub := False\<rparr>)"
    by (simp add: keeps_def session_wf_def)
  show ?thesis
    by (rule keeps_trans [OF keeps_trans [OF 1 keeps_close] keeps_abort])
qed


lemma sessionId_on_message: "sessionId (on_message msg st) = sessionId st"
proof -
  have 2: "sessionId (abort f (close (s\<lparr>abortResponseSub := False\<rparr>))) = sessionId s" for f s
    using keeps_abort_response [of s f] by (simp add: keeps_def)
  show ?thesis
    using 2 unfolding on_message_def Let_def
    by (simp add: connected_next_fields split: body.split)
qed

lemma keeps_start_connect: "keeps st (start_connect i st)"
  by (simp add: start_connect_def)

lemma keeps_invoke: "keeps st (invoke op st)"
proof -
  let ?st1 = "st\<lparr>calls := calls st @
      [\<lparr>operation = op, stage = AwaitingAuthStatus, connectPromise = None\<rparr>]\<rparr>"
  have 1: "keeps st ?st1" by simp
  have 2: "keeps ?st1 (start_connect (length (calls st)) ?st1)"
    by (rule keeps_start_connect)
  have 3: "request_of st op = Some data
      \<Longrightarrow> keeps ?st1 (send_returns (length (calls st)) data ?st1)" for data
    by (rule keeps_send_returns) (rule request_not_abort)
  show ?thesis
    using keeps_trans [OF 1 2] keeps_trans [OF 1 3]
    by (simp add: invoke_def Let_def split: option.split)
qed

lemma keeps_auth_status_resolved: "keeps st (auth_status_resolved i authStatus st)"
  by (simp add: auth_status_resolved_def keeps_def session_wf_def teardown_before_abort_append
        torn_down_append)

lemma keeps_popout_resolved: "keeps st (popout_resolved i p st)"
  by (simp add: popout_resolved_def keeps_def session_wf_def)

lemma keeps_notify_closed: "keeps st (notify_closed ws windowId st)"
proof (induction ws arbitrary: st)
  case Nil
  show ?case by simp
next
  case (Cons w ws)
  have "keeps st (abort False (close st))"
    by (rule keeps_trans [OF keeps_close keeps_abort])
  then have "keeps st (if w = windowId \<and> w \<in> set (closedSubs st)
      then abort False (close st) else st)" by simp
  from keeps_trans [OF this Cons.IH] show ?case by simp
qed

lemma keeps_window_removed: "keeps st (window_removed windowId st)"
  by (simp add: window_removed_def keeps_notify_closed)


lemma sessionId_step: "sessionId (step ev st) = sessionId st"
  using keeps_invoke keeps_close keeps_abort keeps_abort_signal keeps_auth_status_resolved
    keeps_popout_resolved keeps_window_removed keeps_resume sessionId_on_message
  by (cases ev) (simp_all add: keeps_def)



subsection \<open>Sessions do not hear each other\<close>

lemma foreign_step: "foreign (sessionId st) ev \<Longrightarrow> step ev st = st"
  by (cases ev) (simp_all add: on_message_def)

lemma run_without_foreign:
  "run events st = run (filter (\<lambda>ev. \<not> foreign (sessionId st) ev) events) st"
proof (induction events arbitrary: st)
  case Nil
  show ?case by simp
next
  case (Cons ev events)
  show ?case
  proof (cases "foreign (sessionId st) ev")
    case True
    with Cons.IH [of st] show ?thesis
      by (simp add: run_def foreign_step)
  next
    case False
    with Cons.IH [of "step ev st"] show ?thesis
      by (simp add: run_def sessionId_step)
  qed
qed

text \<open>
  C6. A message that bears the session id of session \<open>a\<close> leaves a session \<open>b\<close> with
  another id exactly as it was, whatever its type: no call of \<open>b\<close> takes it, and no
  field and no effect of \<open>b\<close> changes. On the shared channel only \<open>a\<close> reacts. And
  whatever happens to \<open>b\<close>, it ends in the state it would end in had the messages of
  other sessions never been sent.
\<close>

theorem other_session_message_ignored:
  "msg_sessionId msg = sessionId a \<Longrightarrow> sessionId a \<noteq> sessionId b
   \<Longrightarrow> on_message msg b = b \<and> broadcast msg [a, b] = [on_message msg a, b] \<and>
       run events b = run (filter (\<lambda>ev. \<not> foreign (sessionId b) ev) events) b"
  using run_without_foreign [of events b] by (simp add: on_message_def broadcast_def)

theorem other_session_message_ignored_witness:
  "msg_sessionId (Message ''A'' (PickCredentialResponse (Some ''c1'') False)) = sessionId session_A \<and>
   sessionId session_A \<noteq> sessionId session_B \<and>
   stage (calls session_B ! 0) = AwaitingResponse \<and>
   on_message (Message ''A'' (PickCredentialResponse (Some ''c1'') False)) session_B = session_B \<and>
   stage (calls (on_message (Message ''A'' (PickCredentialResponse (Some ''c1'') False)) session_A) ! 0)
     = Settled (Fulfilled (PickCredentialResult (Some ''c1'') False)) \<and>
   run [Receive (Message ''A'' (AbortResponse False)),
        Receive (Message ''B'' (PickCredentialResponse (Some ''c3'') True))] session_B
     = run [Receive (Message ''B'' (PickCredentialResponse (Some ''c3'') True))] session_B"
proof -
  have a: "sessionId session_A = ''A''" and b: "sessionId session_B = ''B''"
    and sB: "stage (calls session_B ! 0) = AwaitingResponse"
    by (simp_all add: session_A_def session_B_def session_defs)
  have h1: "msg_sessionId (Message ''A'' (PickCredentialResponse (Some ''c1'') False))
      = sessionId session_A"
    by (simp add: a)
  have h2: "sessionId session_A \<noteq> sessionId session_B"
    by (simp add: a b)
  have r: "stage (calls (on_message (Message ''A'' (PickCredentialResponse (Some ''c1'') False))
      session_A) ! 0) = Settled (Fulfilled (PickCredentialResult (Some ''c1'') False))"
    by (simp add: session_A_def session_defs)
  show ?thesis
    using other_session_message_ignored
      [OF h1 h2, of "[Receive (Message ''A'' (AbortResponse False)),
                      Receive (Message ''B'' (PickCredentialResponse (Some ''c3'') True))]"]
      h1 h2 sB r b
    by simp
qed

subsection \<open>After close\<close>

text \<open>
  A closed session that is not connected refuses every operation: \<open>connect\<close> throws, and
  nothing is broadcast.
\<close>

lemma closed_unconnected_refuses:
  "closed st \<Longrightarrow> \<not> connected st
   \<Longrightarrow> invoke op st
       = st\<lparr>calls := calls st @
             [\<lparr>operation = op, stage = Settled (Failed ReopenClosedSession),
               connectPromise = None\<rparr>]\<rparr>"
  by (simp add: invoke_def start_connect_def settle_call_def Let_def split: option.split)

text \<open>
  \<open>send\<close> looks at \<open>connected$\<close> only, which \<open>close\<close> leaves as it is: on a connected
  session the request is broadcast, closed or not.
\<close>

lemma connected_sends_closed_or_not:
  "connected st \<Longrightarrow> request_of st op = Some data
   \<Longrightarrow> effects (invoke op st) = effects st @ [SendMessage (Message (sessionId st) data)]"
  by (simp add: invoke_def send_returns_def send_message_def Let_def)

text \<open>
  C7, at the failing input. Session A is closed by its caller while its popout is connected,
  so \<open>closed\<close> is true and \<open>connected$\<close> is still true. \<open>informCredentialNotFound\<close>,
  called then, does not fail: \<open>send\<close> skips \<open>connect\<close> and the request is broadcast for
  the closed session. The call goes on to \<open>receive\<close>, where no later teardown can end it.
  \<open>ensureUnlockedVault\<close> on the same session fails with "Cannot re-open closed session".
\<close>

theorem closed_connected_session_still_sends:
  "closed closed_connected \<and> connected closed_connected \<and>
   effects (invoke InformCredentialNotFound closed_connected)
     = effects closed_connected @
         [SendMessage (Message ''A'' (InformCredentialNotFoundRequest True))] \<and>
   stage (calls (invoke InformCredentialNotFound closed_connected) ! 1) = AwaitingSend \<and>
   stage (calls (run [Invoke InformCredentialNotFound, Resume 1] closed_connected) ! 1)
     = AwaitingResponse \<and>
   stage (calls (run [Invoke InformCredentialNotFound, Resume 1, Close] closed_connected) ! 1)
     = AwaitingResponse \<and>
   stage (calls (invoke EnsureUnlockedVault closed_connected) ! 1)
     = Settled (Failed ReopenClosedSession)"
  by (simp add: closed_connected_def session_A_def session_defs)

subsection \<open>Teardown\<close>

lemma settle_connects_stage:
  "length (settle_connects p cs) = length cs"
  "i < length cs \<Longrightarrow> stage (settle_connects p cs ! i) = stage (cs ! i)"
  by (simp_all add: settle_connects_def)

lemma close_receivers:
  "\<not> destroyed st \<Longrightarrow> i < length (calls st) \<Longrightarrow> stage (calls st ! i) = AwaitingResponse
   \<Longrightarrow> stage (calls (close st) ! i) = Settled (Failed SessionClosedError)"
  by (simp add: close_def fail_receivers_def receive_catch_def)

lemma close_settled:
  "i < length (calls st) \<Longrightarrow> stage (calls st ! i) = Settled out
   \<Longrightarrow> stage (calls (close st) ! i) = Settled out"
  by (simp add: close_def fail_receivers_def Let_def)

lemma abort_signal_length: "length (calls (abort_signal reason st)) = length (calls st)"
  by (simp add: abort_signal_def Let_def settle_connects_stage send_message_def)

lemma abort_signal_settled:
  "i < length (calls st) \<Longrightarrow> stage (calls st ! i) = Settled out
   \<Longrightarrow> stage (calls (abort_signal reason st) ! i) = Settled out"
  by (simp add: abort_signal_def Let_def settle_connects_stage send_message_def close_settled)

lemma abort_signal_destroyed:
  "destroyed (abort_signal reason st) = (destroyed st \<or> (aborted st = None \<and> abortSub st))"
  by (auto simp: abort_signal_def Let_def send_message_def)

lemma abort_signal_receivers:
  assumes "\<not> destroyed st" and "destroyed (abort_signal reason st)"
    and "i < length (calls st)" and "stage (calls st ! i) = AwaitingResponse"
  shows "stage (calls (abort_signal reason st) ! i) = Settled (Failed SessionClosedError)"
proof -
  from assms(1,2) have run: "aborted st = None" "abortSub st"
    by (simp_all add: abort_signal_destroyed)
  have "stage (calls (close (st\<lparr>aborted := Some reason\<rparr>)) ! i)
      = Settled (Failed SessionClosedError)"
    using close_receivers [of "st\<lparr>aborted := Some reason\<rparr>" i] assms by simp
  with run assms(3) show ?thesis
    by (simp add: abort_signal_def Let_def settle_connects_stage send_message_def)
qed

lemma close_abort_receivers:
  assumes "\<not> destroyed st" and "i < length (calls st)"
    and "stage (calls st ! i) = AwaitingResponse"
  shows "stage (calls (abort f (close st)) ! i) = Settled (Failed SessionClosedError)"
  using close_receivers [OF assms] assms(2)
    abort_signal_settled [of i "close st" "Failed SessionClosedError"]
  by (simp add: abort_def)

lemma close_abort_fields:
  "length (calls (abort f (close st))) = length (calls st)" "destroyed (abort f (close st))"
  by (simp_all add: abort_def abort_signal_length abort_signal_destroyed)

lemma close_abort_settled:
  "i < length (calls st) \<Longrightarrow> stage (calls st ! i) = Settled out
   \<Longrightarrow> stage (calls (abort f (close st)) ! i) = Settled out"
  using close_settled [of i st out] abort_signal_settled [of i "close st" out]
  by (simp add: abort_def)

lemma notify_closed_length: "length (calls (notify_closed ws w st)) = length (calls st)"
  by (induction ws arbitrary: st) (simp_all add: close_abort_fields)

lemma notify_closed_settled:
  "i < length (calls st) \<Longrightarrow> stage (calls st ! i) = Settled out
   \<Longrightarrow> stage (calls (notify_closed ws w st) ! i) = Settled out"
proof (induction ws arbitrary: st)
  case Nil
  then show ?case by simp
next
  case (Cons x ws)
  show ?case
    using Cons.IH [of "abort False (close st)"] Cons.IH [of st] Cons.prems
      close_abort_settled [of i st out False]
    by (simp add: close_abort_fields)
qed

lemma notify_closed_receivers:
  "\<not> destroyed st \<Longrightarrow> destroyed (notify_closed ws w st) \<Longrightarrow> i < length (calls st)
   \<Longrightarrow> stage (calls st ! i) = AwaitingResponse
   \<Longrightarrow> stage (calls (notify_closed ws w st) ! i) = Settled (Failed SessionClosedError)"
proof (induction ws arbitrary: st)
  case Nil
  then show ?case by simp
next
  case (Cons x ws)
  show ?case
  proof (cases "x = w \<and> x \<in> set (closedSubs st)")
    case True
    then have xw: "x = w" and m: "w \<in> set (closedSubs st)" by auto
    from close_abort_receivers [of st i False] Cons.prems
      notify_closed_settled [of i "abort False (close st)" "Failed SessionClosedError" ws w]
    show ?thesis by (simp add: xw m close_abort_fields)
  next
    case False
    then have "notify_closed (x # ws) w st = notify_closed ws w st"
      by auto
    with Cons show ?thesis by simp
  qed
qed

lemma on_message_length: "length (calls (on_message msg st)) = length (calls st)"
  unfolding on_message_def Let_def
  by (simp add: deliver_def connected_next_def settle_connects_stage close_abort_fields
        split: body.split)

lemma on_message_receivers:
  assumes "\<not> destroyed st" and "destroyed (on_message msg st)"
    and "i < length (calls st)" and "stage (calls st ! i) = AwaitingResponse"
  shows "stage (calls (on_message msg st) ! i) = Settled (Failed SessionClosedError)"
proof (cases "msg_sessionId msg = sessionId st")
  case False
  with assms show ?thesis by (simp add: on_message_def)
next
  case same: True
  show ?thesis
  proof (cases "\<exists>f. msg_body msg = AbortResponse f")
    case False
    then have "destroyed (on_message msg st) = destroyed st"
      by (cases "msg_body msg") (simp_all add: on_message_def Let_def connected_next_def)
    with assms show ?thesis by simp
  next
    case True
    then obtain f where f: "msg_body msg = AbortResponse f" by blast
    show ?thesis
    proof (cases "abortResponseSub st")
      case False
      with f same have "destroyed (on_message msg st) = destroyed st"
        by (simp add: on_message_def Let_def)
      with assms show ?thesis by simp
    next
      case True
      let ?st' = "st\<lparr>abortResponseSub := False\<rparr>"
      have "stage (calls (abort f (close ?st')) ! i) = Settled (Failed SessionClosedError)"
        using close_abort_receivers [of ?st' i f] assms by simp
      with f same True assms(3) show ?thesis
        by (simp add: on_message_def Let_def deliver_def close_abort_fields)
    qed
  qed
qed

lemma step_length: "length (calls st) \<le> length (calls (step ev st))"
proof (cases ev)
  case (Invoke op)
  then show ?thesis
    by (simp add: invoke_def start_connect_def settle_call_def send_returns_def
          send_message_def Let_def split: option.split)
next
  case (Resume j)
  then show ?thesis
    by (simp add: resume_def connect_returned_def settle_call_def send_returns_def
          send_message_def split: stage.split option.split promise.split)
qed (simp_all add: abort_def abort_signal_length on_message_length auth_status_resolved_def
       popout_resolved_def window_removed_def notify_closed_length)

text \<open>
  C8. Whatever tears a session down (a call of \<open>close\<close>, the abort signal, an
  AbortResponse, the removal of the window of the popout), a call that is at the \<open>await\<close>
  of its \<open>receive\<close> at that moment fails with SessionClosedError, which is neither of the
  reasons an abort gives: the abort itself is reported through the signal.
\<close>

theorem teardown_fails_pending_receive:
  assumes "\<not> destroyed st" and "destroyed (step ev st)"
    and "i < length (calls st)" and "stage (calls st ! i) = AwaitingResponse"
  shows "i < length (calls (step ev st)) \<and>
         stage (calls (step ev st) ! i) = Settled (Failed SessionClosedError) \<and>
         SessionClosedError \<noteq> AbortError \<and>
         SessionClosedError \<noteq> UserRequestedFallbackAbortReason"
proof -
  have len: "i < length (calls (step ev st))"
    using assms(3) step_length [of st ev] by simp
  have "stage (calls (step ev st) ! i) = Settled (Failed SessionClosedError)"
  proof (cases ev)
    case (Invoke op)
    have "destroyed (invoke op st) = destroyed st"
      by (simp add: invoke_def start_connect_def settle_call_def send_returns_def
            send_message_def Let_def split: option.split)
    with assms Invoke show ?thesis by simp
  next
    case Close
    with assms close_receivers [of st i] show ?thesis by simp
  next
    case (Abort f)
    with assms abort_signal_receivers [of st _ i] show ?thesis by (simp add: abort_def)
  next
    case (AbortSignal reason)
    with assms abort_signal_receivers [of st reason i] show ?thesis by simp
  next
    case (Receive msg)
    with assms on_message_receivers [of st msg i] show ?thesis by simp
  next
    case (AuthStatusResolved j a)
    have "destroyed (auth_status_resolved j a st) = destroyed st"
      by (simp add: auth_status_resolved_def)
    with assms AuthStatusResolved show ?thesis by simp
  next
    case (PopOutResolved j p)
    have "destroyed (popout_resolved j p st) = destroyed st"
      by (simp add: popout_resolved_def)
    with assms PopOutResolved show ?thesis by simp
  next
    case (Resume j)
    have "destroyed (resume j st) = destroyed st"
      by (simp add: resume_def connect_returned_def settle_call_def send_returns_def
            send_message_def split: stage.split option.split promise.split)
    with assms Resume show ?thesis by simp
  next
    case (WindowRemoved w)
    with assms notify_closed_receivers [of st "closedSubs st" w i] show ?thesis
      by (simp add: window_removed_def)
  qed
  with len show ?thesis by simp
qed

theorem teardown_fails_pending_receive_witness:
  "\<not> destroyed session_A \<and> 0 < length (calls session_A) \<and>
   stage (calls session_A ! 0) = AwaitingResponse \<and>
   destroyed (step Close session_A) \<and>
   stage (calls (step Close session_A) ! 0) = Settled (Failed SessionClosedError) \<and>
   destroyed (step (AbortSignal AbortError) session_A) \<and>
   aborted (step (AbortSignal AbortError) session_A) = Some AbortError \<and>
   stage (calls (step (AbortSignal AbortError) session_A) ! 0)
     = Settled (Failed SessionClosedError) \<and>
   destroyed (step (WindowRemoved 7) session_A) \<and>
   stage (calls (step (WindowRemoved 7) session_A) ! 0) = Settled (Failed SessionClosedError)"
proof -
  have h1: "\<not> destroyed session_A" and h2: "0 < length (calls session_A)"
    and h3: "stage (calls session_A ! 0) = AwaitingResponse"
    by (simp_all add: session_A_def session_defs)
  have d1: "destroyed (step Close session_A)"
    and d2: "destroyed (step (AbortSignal AbortError) session_A)"
    and a2: "aborted (step (AbortSignal AbortError) session_A) = Some AbortError"
    and d3: "destroyed (step (WindowRemoved 7) session_A)"
    by (simp_all add: session_A_def session_defs)
  show ?thesis
    using teardown_fails_pending_receive [OF h1 d1 h2 h3]
      teardown_fails_pending_receive [OF h1 d2 h2 h3]
      teardown_fails_pending_receive [OF h1 d3 h2 h3] h1 h2 h3 d1 d2 a2 d3
    by simp
qed

text \<open>
  A teardown that comes before the operation has called \<open>receive\<close> does not reach the
  call: the \<open>receive\<close> that subscribes afterwards is not ended by \<open>destroy$\<close>, neither
  then nor by a later \<open>close\<close>.
\<close>

lemma teardown_before_receive_leaves_call_pending:
  assumes "i < length (calls st)" and "stage (calls st ! i) = AwaitingSend"
  shows "stage (calls (run [Close] st) ! i) = AwaitingSend"
    and "stage (calls (run [Close, Resume i] st) ! i) = AwaitingResponse"
    and "stage (calls (run [Close, Resume i, Close] st) ! i) = AwaitingResponse"
proof -
  have c: "stage (calls (close st) ! i) = AwaitingSend" "i < length (calls (close st))"
    using assms by (simp_all add: close_def fail_receivers_def Let_def)
  then show "stage (calls (run [Close] st) ! i) = AwaitingSend"
    by (simp add: run_def)
  have r: "stage (calls (resume i (close st)) ! i) = AwaitingResponse"
    "i < length (calls (resume i (close st)))" "destroyed (resume i (close st))"
    using c by (simp_all add: resume_def)
  then show "stage (calls (run [Close, Resume i] st) ! i) = AwaitingResponse"
    by (simp add: run_def)
  from r show "stage (calls (run [Close, Resume i, Close] st) ! i) = AwaitingResponse"
    by (simp add: run_def close_def)
qed



end
